theory Spec2Isabelle
  imports Complex_Main "HOL-Library.Multiset"
begin

section \<open>Values, errors and the bounded-stat descriptor\<close>

text \<open>
  Python floats are modelled as reals: rounding, infinities and NaN are outside the
  model, and so is overflow inside float arithmetic. A value handed to a descriptor is any
  Python object; the ones that matter to \<open>float()\<close> are listed, \<open>PyObj\<close> stands for
  every object that has neither \<open>__float__\<close> nor \<open>__index__\<close> (a list, a dict, ...).
\<close>

datatype pyval = PyNone | PyBool bool | PyInt int | PyFloat real | PyStr string | PyObj

datatype error = TypeError | ValueError | OverflowError | AttributeError | IndexError

text \<open>
  An int converts to a float when its nearest double is finite: the least magnitude that
  does not is halfway between the largest double, 2^1024 - 2^971, and 2^1024.
\<close>

definition float_overflow_bound :: int where
  "float_overflow_bound = 2 ^ 1024 - 2 ^ 970"

text \<open>
  The builtin \<open>float(value)\<close>. On an int of magnitude at or beyond the bound it raises
  OverflowError. What it does on a string is the builtin's own grammar, taken as the
  parameter \<open>parse\<close> (\<open>None\<close> is ValueError).
\<close>

fun py_float :: "(string \<Rightarrow> real option) \<Rightarrow> pyval \<Rightarrow> error + real" where
  "py_float parse PyNone = Inl TypeError"
| "py_float parse (PyBool b) = Inr (if b then 1 else 0)"
| "py_float parse (PyInt n) =
     (if \<bar>n\<bar> \<ge> float_overflow_bound then Inl OverflowError else Inr (real_of_int n))"
| "py_float parse (PyFloat x) = Inr x"
| "py_float parse (PyStr s) = (case parse s of None \<Rightarrow> Inl ValueError | Some x \<Rightarrow> Inr x)"
| "py_float parse PyObj = Inl TypeError"

text \<open>
  An instance of the builtin's grammar for closed examples: an optional sign followed by
  one or more ASCII digits, read in base ten. On these strings it agrees with
  \<open>float()\<close>.
\<close>

definition is_digit :: "char \<Rightarrow> bool" where
  "is_digit c = ((48::nat) \<le> of_char c \<and> (of_char c :: nat) \<le> 57)"

fun digits_value :: "nat \<Rightarrow> string \<Rightarrow> nat" where
  "digits_value acc [] = acc"
| "digits_value acc (c # cs) = digits_value (10 * acc + (of_char c - 48)) cs"

definition unsigned_decimal :: "string \<Rightarrow> real option" where
  "unsigned_decimal s =
     (if s \<noteq> [] \<and> list_all is_digit s then Some (real (digits_value 0 s)) else None)"

fun float_of_decimal :: "string \<Rightarrow> real option" where
  "float_of_decimal [] = None"
| "float_of_decimal (c # cs) =
     (if c = CHR ''-'' then map_option uminus (unsigned_decimal cs)
      else if c = CHR ''+'' then unsigned_decimal cs
      else unsigned_decimal (c # cs))"

text \<open>class BoundedStat: the descriptor object and the instance attributes it manages.\<close>

record BoundedStat =
  stat_name :: string
  stat_min :: real
  stat_max :: "real option"
  private_name :: string

definition BoundedStat_init :: "string \<Rightarrow> real \<Rightarrow> real option \<Rightarrow> BoundedStat" where
  "BoundedStat_init nm min_value max_value =
     \<lparr>stat_name = nm, stat_min = min_value, stat_max = max_value, private_name = ''_'' @ nm\<rparr>"

type_synonym instance_attrs = "string \<rightharpoonup> real"

text \<open>\<open>__get__\<close> on an instance: \<open>getattr(instance, private_name, 0.0)\<close>.\<close>

definition BoundedStat_get :: "BoundedStat \<Rightarrow> instance_attrs \<Rightarrow> real" where
  "BoundedStat_get d inst = (case inst (private_name d) of None \<Rightarrow> 0 | Some v \<Rightarrow> v)"

text \<open>The clamp of \<open>__set__\<close> (lines 29 to 32).\<close>

definition clamp_stat :: "BoundedStat \<Rightarrow> real \<Rightarrow> real" where
  "clamp_stat d v =
     (case stat_max d of
        Some m \<Rightarrow> max (stat_min d) (min m v)
      | None \<Rightarrow> max (stat_min d) v)"

text \<open>\<open>__set__\<close> after a successful conversion: clamp and \<open>setattr\<close>.\<close>

definition stat_store :: "BoundedStat \<Rightarrow> real \<Rightarrow> instance_attrs \<Rightarrow> instance_attrs" where
  "stat_store d v inst = inst(private_name d \<mapsto> clamp_stat d v)"

text \<open>
  \<open>__set__\<close>: the result is the exception raised, if any, and the instance afterwards.
  TypeError and ValueError of \<open>float\<close> are caught and a TypeError is raised; any other
  exception of \<open>float\<close> leaves \<open>__set__\<close> as it is.
\<close>

definition BoundedStat_set ::
  "(string \<Rightarrow> real option) \<Rightarrow> BoundedStat \<Rightarrow> instance_attrs \<Rightarrow> pyval \<Rightarrow> error option \<times> instance_attrs" where
  "BoundedStat_set parse d inst val =
     (case py_float parse val of
        Inl e \<Rightarrow> (if e = TypeError \<or> e = ValueError then (Some TypeError, inst) else (Some e, inst))
      | Inr v \<Rightarrow> (None, stat_store d v inst))"

text \<open>\<open>__delete__\<close> always raises AttributeError.\<close>

definition BoundedStat_delete :: "BoundedStat \<Rightarrow> instance_attrs \<Rightarrow> error option \<times> instance_attrs" where
  "BoundedStat_delete d inst = (Some AttributeError, inst)"



section \<open>Effects, items and characters\<close>

text \<open>
  An effect object: its class, the reference to its source (an index into the heap of
  characters; only the source's name is ever read, for logging), its payload and its
  remaining duration. Each effect object is attached to one character only, so it is
  stored by value in that character's list.
\<close>

datatype effect =
    ShieldEffect (source: nat) (amount: real) (duration: int)
  | DotEffect (source: nat) (damage: real) (duration: int)
  | SilenceEffect (source: nat) (duration: int)
  | RegenEffect (source: nat) (amount: real) (duration: int)

fun class_name :: "effect \<Rightarrow> string" where
  "class_name (ShieldEffect s a d) = ''ShieldEffect''"
| "class_name (DotEffect s a d) = ''DotEffect''"
| "class_name (SilenceEffect s d) = ''SilenceEffect''"
| "class_name (RegenEffect s a d) = ''RegenEffect''"

fun is_SilenceEffect :: "effect \<Rightarrow> bool" where
  "is_SilenceEffect (SilenceEffect s d) = True"
| "is_SilenceEffect e = False"

fun set_duration :: "int \<Rightarrow> effect \<Rightarrow> effect" where
  "set_duration n (ShieldEffect s a d) = ShieldEffect s a n"
| "set_duration n (DotEffect s a d) = DotEffect s a n"
| "set_duration n (SilenceEffect s d) = SilenceEffect s n"
| "set_duration n (RegenEffect s a d) = RegenEffect s a n"

record item =
  item_name :: string
  description :: string
  hp_restore :: real
  mp_restore :: real

datatype klass = Warrior | Mage | Healer | Boss

text \<open>
  What \<open>Character.log\<close> prints, one constructor for each message of the source; the
  text of a message is not modelled, its data is. Numbers are carried as they are,
  before formatting.
\<close>

datatype event =
    GainsEffect string string int
  | EffectEnded string string
  | ShieldAbsorbed string real
  | TookDamage string real "nat option" real real
  | Healed string real real real
  | RestoredMP string real real real
  | CriticalHit string
  | SkillSilenced string string
  | SkillOnCooldown string string
  | SkillNoMP string string
  | CriticalPowerStrike string
  | BossSmash string string
  | BossShield string real
  | BossSilence string string
  | BossWait string

text \<open>
  A character object. \<open>attrs\<close> holds the private attributes written by the five
  descriptors of class Human; \<open>inventory\<close> is the dict of Inventory in insertion order;
  \<open>max_hp\<close> and \<open>max_mp\<close> are \<open>_max_hp\<close> and \<open>_max_mp\<close>.
\<close>

record character =
  kind :: klass
  name :: string
  level :: int
  max_hp :: real
  max_mp :: real
  attrs :: instance_attrs
  effects :: "effect list"
  shield :: real
  cooldowns :: "string \<rightharpoonup> int"
  inventory :: "(string \<times> item \<times> int) list"
  crit_chance :: real
  crit_multiplier :: real

text \<open>The descriptors declared in class Human (lines 60 to 64): minimum 0, no maximum.\<close>

definition hp_stat :: BoundedStat where
  "hp_stat = BoundedStat_init ''hp'' 0 None"

definition mp_stat :: BoundedStat where
  "mp_stat = BoundedStat_init ''mp'' 0 None"

definition strength_stat :: BoundedStat where
  "strength_stat = BoundedStat_init ''strength'' 0 None"

definition agility_stat :: BoundedStat where
  "agility_stat = BoundedStat_init ''agility'' 0 None"

definition intelligence_stat :: BoundedStat where
  "intelligence_stat = BoundedStat_init ''intelligence'' 0 None"

definition hp :: "character \<Rightarrow> real" where
  "hp c = BoundedStat_get hp_stat (attrs c)"

definition mp :: "character \<Rightarrow> real" where
  "mp c = BoundedStat_get mp_stat (attrs c)"

definition strength :: "character \<Rightarrow> real" where
  "strength c = BoundedStat_get strength_stat (attrs c)"

definition agility :: "character \<Rightarrow> real" where
  "agility c = BoundedStat_get agility_stat (attrs c)"

definition intelligence :: "character \<Rightarrow> real" where
  "intelligence c = BoundedStat_get intelligence_stat (attrs c)"

text \<open>An assignment \<open>self.hp = v\<close> of a float inside the classes, through the descriptor.\<close>

definition set_hp :: "real \<Rightarrow> character \<Rightarrow> character" where
  "set_hp v c = c\<lparr>attrs := stat_store hp_stat v (attrs c)\<rparr>"

definition set_mp :: "real \<Rightarrow> character \<Rightarrow> character" where
  "set_mp v c = c\<lparr>attrs := stat_store mp_stat v (attrs c)\<rparr>"

definition set_strength :: "real \<Rightarrow> character \<Rightarrow> character" where
  "set_strength v c = c\<lparr>attrs := stat_store strength_stat v (attrs c)\<rparr>"

definition set_agility :: "real \<Rightarrow> character \<Rightarrow> character" where
  "set_agility v c = c\<lparr>attrs := stat_store agility_stat v (attrs c)\<rparr>"

definition set_intelligence :: "real \<Rightarrow> character \<Rightarrow> character" where
  "set_intelligence v c = c\<lparr>attrs := stat_store intelligence_stat v (attrs c)\<rparr>"



text \<open>
  \<open>Human.__init__\<close> followed by the rest of \<open>Character.__init__\<close>; the crit attributes
  start at the class attributes of CritMixin.
\<close>

definition Character_init ::
  "klass \<Rightarrow> string \<Rightarrow> int \<Rightarrow> real \<Rightarrow> real \<Rightarrow> real \<Rightarrow> real \<Rightarrow> real \<Rightarrow> character" where
  "Character_init k nm lvl mhp mmp str agi intel =
     (set_intelligence intel (set_agility agi (set_strength str (set_mp mmp (set_hp mhp
        \<lparr>kind = k, name = nm, level = lvl, max_hp = mhp, max_mp = mmp, attrs = Map.empty,
         effects = [], shield = 0, cooldowns = Map.empty, inventory = [],
         crit_chance = 0, crit_multiplier = 1.5\<rparr>)))))"

definition Warrior_init :: "string \<Rightarrow> character" where
  "Warrior_init nm =
     (Character_init Warrior nm 1 150 30 20 12 6)
       \<lparr>cooldowns := [''power_strike'' \<mapsto> 0], crit_chance := 0.12\<rparr>"

definition Mage_init :: "string \<Rightarrow> character" where
  "Mage_init nm =
     (Character_init Mage nm 1 90 140 6 10 22)
       \<lparr>cooldowns := [''fireball'' \<mapsto> 0], crit_chance := 0.06\<rparr>"

definition Healer_init :: "string \<Rightarrow> character" where
  "Healer_init nm =
     (Character_init Healer nm 1 110 130 6 10 20)
       \<lparr>cooldowns := [''mass_heal'' \<mapsto> 0], crit_chance := 0.03\<rparr>"

definition Boss_init :: "string \<Rightarrow> character" where
  "Boss_init nm = Character_init Boss nm 5 600 80 26 8 14"

definition is_alive :: "character \<Rightarrow> bool" where
  "is_alive c = (hp c > 0)"

definition is_silenced :: "character \<Rightarrow> bool" where
  "is_silenced c = list_ex is_SilenceEffect (effects c)"

text \<open>
  The methods that change only the character itself return the character afterwards
  and what was printed.
\<close>

definition take_damage :: "character \<Rightarrow> real \<Rightarrow> nat option \<Rightarrow> character \<times> event list" where
  "take_damage self amt src =
     (let (self1, amt1, out1) =
            (if shield self > 0 then
               (let absorbed = min (shield self) amt
                in (self\<lparr>shield := shield self - absorbed\<rparr>, amt - absorbed,
                    [ShieldAbsorbed (name self) absorbed]))
             else (self, amt, []))
      in if amt1 \<le> 0 then (self1, out1)
         else (let self2 = set_hp (max 0 (hp self1 - amt1)) self1
               in (self2, out1 @ [TookDamage (name self) amt1 src (hp self2) (max_hp self2)])))"

definition heal :: "character \<Rightarrow> real \<Rightarrow> character \<times> event list" where
  "heal self amt =
     (let old = hp self;
          self1 = set_hp (min (max_hp self) (hp self + amt)) self
      in (self1, [Healed (name self) (hp self1 - old) (hp self1) (max_hp self1)]))"

definition restore_mp :: "character \<Rightarrow> real \<Rightarrow> character \<times> event list" where
  "restore_mp self amt =
     (let old = mp self;
          self1 = set_mp (min (max_mp self) (mp self + amt)) self
      in (self1, [RestoredMP (name self) (mp self1 - old) (mp self1) (max_mp self1)]))"

definition spend_mp :: "character \<Rightarrow> real \<Rightarrow> bool \<times> character" where
  "spend_mp self amt =
     (if mp self \<ge> amt then (True, set_mp (mp self - amt) self) else (False, self))"

section \<open>The effect lifecycle\<close>

text \<open>\<open>Effect.apply\<close>, overridden by ShieldEffect only.\<close>

fun effect_apply :: "effect \<Rightarrow> character \<Rightarrow> character" where
  "effect_apply (ShieldEffect s a d) target = target\<lparr>shield := shield target + a\<rparr>"
| "effect_apply e target = target"

text \<open>\<open>Effect.expire\<close>, overridden by ShieldEffect only.\<close>

fun expire :: "effect \<Rightarrow> character \<Rightarrow> character" where
  "expire (ShieldEffect s a d) target = target\<lparr>shield := max 0 (shield target - a)\<rparr>"
| "expire e target = target"

text \<open>
  \<open>on_turn\<close>: the payload of DotEffect and RegenEffect, then the decrement of the base
  class. The result is the effect object afterwards, the target afterwards and the output.
\<close>

fun on_turn :: "effect \<Rightarrow> character \<Rightarrow> effect \<times> character \<times> event list" where
  "on_turn (DotEffect s dmg d) target =
     (let (target1, out) =
            (if is_alive target then take_damage target dmg (Some s) else (target, []))
      in (DotEffect s dmg (d - 1), target1, out))"
| "on_turn (RegenEffect s a d) target =
     (let (target1, out) = (if is_alive target then heal target a else (target, []))
      in (RegenEffect s a (d - 1), target1, out))"
| "on_turn (ShieldEffect s a d) target = (ShieldEffect s a (d - 1), target, [])"
| "on_turn (SilenceEffect s d) target = (SilenceEffect s (d - 1), target, [])"

definition apply_effect :: "character \<Rightarrow> effect \<Rightarrow> character \<times> event list" where
  "apply_effect self e =
     (let self1 = effect_apply e self;
          self2 = self1\<lparr>effects := effects self1 @ [e]\<rparr>
      in (self2, [GainsEffect (name self) (class_name e) (duration e)]))"

text \<open>
  The loop of \<open>remove_expired_effects\<close> over \<open>self.effects\<close>: the list \<open>still\<close>, the
  character and the output so far.
\<close>

fun remove_expired_loop ::
  "effect list \<Rightarrow> effect list \<Rightarrow> character \<Rightarrow> event list \<Rightarrow> effect list \<times> character \<times> event list" where
  "remove_expired_loop [] still self out = (still, self, out)"
| "remove_expired_loop (e # es) still self out =
     (if duration e \<le> 0
      then remove_expired_loop es still (expire e self)
             (out @ [EffectEnded (name self) (class_name e)])
      else remove_expired_loop es (still @ [e]) self out)"

definition remove_expired_effects :: "character \<Rightarrow> character \<times> event list" where
  "remove_expired_effects self =
     (let (still, self1, out) = remove_expired_loop (effects self) [] self []
      in (self1\<lparr>effects := still\<rparr>, out))"

text \<open>
  The loop of \<open>start_turn_effects\<close> over a copy of \<open>self.effects\<close>. Each effect object
  is changed in place by \<open>on_turn\<close>; no \<open>on_turn\<close> reads or writes the list itself, so
  the changed objects are collected and written back after the loop.
\<close>

fun on_turn_loop :: "effect list \<Rightarrow> character \<Rightarrow> effect list \<times> character \<times> event list" where
  "on_turn_loop [] self = ([], self, [])"
| "on_turn_loop (e # es) self =
     (let (e1, self1, out1) = on_turn e self;
          (es1, self2, out2) = on_turn_loop es self1
      in (e1 # es1, self2, out1 @ out2))"

definition start_turn_effects :: "character \<Rightarrow> character \<times> event list" where
  "start_turn_effects self =
     (let (es, self1, out1) = on_turn_loop (effects self) self;
          (self2, out2) = remove_expired_effects (self1\<lparr>effects := es\<rparr>)
      in (self2, out1 @ out2))"

section \<open>The world: heap, output, randomness and input\<close>

text \<open>
  Battle messages (what \<open>broadcast\<close> and \<open>log_round\<close> record) and the lines printed by
  the menu.
\<close>

datatype msg =
    BattleStart
  | RoundBegin int
  | RoundEnd int
  | RoundHeader int int
  | PlayerExit
  | Retaliation string string
  | BossWins
  | PartyWins

datatype screen =
    InventoryEmpty
  | InventoryHeader
  | InventoryLine int string int string
  | ItemPrompt
  | InvalidItem
  | HeroHeader string real real real real
  | MenuExit
  | MenuAttack
  | MenuSkill
  | MenuItem
  | ActionPrompt
  | ConfirmPrompt
  | ItemUsed string string
  | ItemFailed
  | ItemSkipped
  | InvalidInput

datatype line = Log event | Say msg | Screen screen

text \<open>
  Characters are objects shared by reference: the heap lists them and a reference is an
  index. \<open>stdout\<close> is everything printed, \<open>draws\<close> counts the calls to the random
  generator, \<open>reads\<close> the calls to \<open>input\<close>, \<open>log_file\<close> is the content of
  battle_log.json once it has been written.
\<close>

record world =
  heap :: "character list"
  stdout :: "line list"
  draws :: nat
  reads :: nat
  log_file :: "msg list option"

text \<open>
  What the program does not decide: the random generator's results, the lines typed by
  the player, and the builtin \<open>int\<close> on a string (\<open>None\<close> is ValueError).
\<close>

record env =
  rand_real :: "nat \<Rightarrow> real"
  rand_nat :: "nat \<Rightarrow> nat"
  input_line :: "nat \<Rightarrow> string"
  int_of_str :: "string \<Rightarrow> int option"

definition print :: "line list \<Rightarrow> world \<Rightarrow> world" where
  "print ls w = w\<lparr>stdout := stdout w @ ls\<rparr>"

definition log_event :: "event \<Rightarrow> world \<Rightarrow> world" where
  "log_event e w = print [Log e] w"

text \<open>A method of the character at reference \<open>i\<close> that changes only that character.\<close>

definition on :: "nat \<Rightarrow> (character \<Rightarrow> character \<times> event list) \<Rightarrow> world \<Rightarrow> world" where
  "on i f w =
     (case f (heap w ! i) of
        (c, out) \<Rightarrow> w\<lparr>heap := (heap w)[i := c], stdout := stdout w @ map Log out\<rparr>)"

text \<open>\<open>random.random()\<close>, \<open>random.uniform(a, b)\<close> and \<open>random.choice(seq)\<close>.\<close>

definition random_random :: "env \<Rightarrow> world \<Rightarrow> real \<times> world" where
  "random_random en w = (rand_real en (draws w), w\<lparr>draws := Suc (draws w)\<rparr>)"

definition random_uniform :: "env \<Rightarrow> real \<Rightarrow> real \<Rightarrow> world \<Rightarrow> real \<times> world" where
  "random_uniform en a b w =
     (case random_random en w of (r, w1) \<Rightarrow> (a + (b - a) * r, w1))"

definition randbelow :: "env \<Rightarrow> nat \<Rightarrow> world \<Rightarrow> nat \<times> world" where
  "randbelow en n w = (rand_nat en (draws w) mod n, w\<lparr>draws := Suc (draws w)\<rparr>)"

definition random_choice :: "env \<Rightarrow> 'a list \<Rightarrow> world \<Rightarrow> (error + 'a) \<times> world" where
  "random_choice en xs w =
     (if xs = [] then (Inl IndexError, w)
      else (case randbelow en (length xs) w of (k, w1) \<Rightarrow> (Inr (xs ! k), w1)))"

definition roll_crit :: "env \<Rightarrow> nat \<Rightarrow> world \<Rightarrow> bool \<times> world" where
  "roll_crit en self w =
     (case random_random en w of (r, w1) \<Rightarrow> (r < crit_chance (heap w ! self), w1))"

section \<open>Attacks and signature skills\<close>

definition basic_attack :: "env \<Rightarrow> nat \<Rightarrow> nat \<Rightarrow> world \<Rightarrow> world" where
  "basic_attack en self target w =
     (let base = strength (heap w ! self) * 1.0;
          (crit, w1) = roll_crit en self w;
          (base1, w2) =
            (if crit
             then (base * crit_multiplier (heap w1 ! self),
                   log_event (CriticalHit (name (heap w1 ! self))) w1)
             else (base, w1));
          (u, w3) = random_uniform en 0.9 1.1 w2;
          dmg = u * base1
      in on target (\<lambda>c. take_damage c dmg (Some self)) w3)"

text \<open>\<open>self.cooldowns.get(skill, 0)\<close>.\<close>

definition cooldown_of :: "character \<Rightarrow> string \<Rightarrow> int" where
  "cooldown_of c skill = (case cooldowns c skill of None \<Rightarrow> 0 | Some n \<Rightarrow> n)"

definition set_cooldown :: "string \<Rightarrow> int \<Rightarrow> character \<Rightarrow> character" where
  "set_cooldown skill n c = c\<lparr>cooldowns := (cooldowns c)(skill \<mapsto> n)\<rparr>"

definition power_strike :: "env \<Rightarrow> nat \<Rightarrow> nat \<Rightarrow> world \<Rightarrow> bool \<times> world" where
  "power_strike en self target w =
     (let cost = 8; cd = 2; me = heap w ! self in
      if is_silenced me then (False, log_event (SkillSilenced (name me) ''power_strike'') w)
      else if cooldown_of me ''power_strike'' > 0
      then (False, log_event (SkillOnCooldown (name me) ''power_strike'') w)
      else (case spend_mp me cost of
              (False, me1) \<Rightarrow> (False, log_event (SkillNoMP (name me) ''power_strike'') w)
            | (True, me1) \<Rightarrow>
               (let w1 = w\<lparr>heap := (heap w)[self := set_cooldown ''power_strike'' cd me1]\<rparr>;
                    dmg = strength (heap w1 ! self) * 2.0;
                    (crit, w2) = roll_crit en self w1;
                    (dmg1, w3) =
                      (if crit
                       then (dmg * crit_multiplier (heap w2 ! self),
                             log_event (CriticalPowerStrike (name (heap w2 ! self))) w2)
                       else (dmg, w2))
                in (True, on target (\<lambda>c. take_damage c dmg1 (Some self)) w3))))"

definition fireball :: "nat \<Rightarrow> nat \<Rightarrow> world \<Rightarrow> bool \<times> world" where
  "fireball self target w =
     (let cost = 20; cd = 3; me = heap w ! self in
      if is_silenced me then (False, log_event (SkillSilenced (name me) ''fireball'') w)
      else if cooldown_of me ''fireball'' > 0
      then (False, log_event (SkillOnCooldown (name me) ''fireball'') w)
      else (case spend_mp me cost of
              (False, me1) \<Rightarrow> (False, log_event (SkillNoMP (name me) ''fireball'') w)
            | (True, me1) \<Rightarrow>
               (let w1 = w\<lparr>heap := (heap w)[self := set_cooldown ''fireball'' cd me1]\<rparr>;
                    dmg = intelligence (heap w1 ! self) * 3.0;
                    w2 = on target (\<lambda>c. take_damage c dmg (Some self)) w1;
                    dot = DotEffect self (dmg * 0.25) 2
                in (True, on target (\<lambda>c. apply_effect c dot) w2))))"

text \<open>The loop of \<open>mass_heal\<close> over the allies.\<close>

fun heal_allies :: "real \<Rightarrow> nat list \<Rightarrow> world \<Rightarrow> world" where
  "heal_allies amt [] w = w"
| "heal_allies amt (a # as) w =
     heal_allies amt as (if is_alive (heap w ! a) then on a (\<lambda>c. heal c amt) w else w)"

definition mass_heal :: "nat \<Rightarrow> nat list \<Rightarrow> world \<Rightarrow> bool \<times> world" where
  "mass_heal self allies w =
     (let cost = 25; cd = 3; me = heap w ! self in
      if is_silenced me then (False, log_event (SkillSilenced (name me) ''mass_heal'') w)
      else if cooldown_of me ''mass_heal'' > 0
      then (False, log_event (SkillOnCooldown (name me) ''mass_heal'') w)
      else (case spend_mp me cost of
              (False, me1) \<Rightarrow> (False, log_event (SkillNoMP (name me) ''mass_heal'') w)
            | (True, me1) \<Rightarrow>
               (let w1 = w\<lparr>heap := (heap w)[self := set_cooldown ''mass_heal'' cd me1]\<rparr>;
                    amt = intelligence (heap w1 ! self) * 2.0
                in (True, heal_allies amt allies w1))))"

definition Warrior_use_skill :: "env \<Rightarrow> nat \<Rightarrow> nat option \<Rightarrow> nat list \<Rightarrow> world \<Rightarrow> world" where
  "Warrior_use_skill en self target allies w =
     (case target of
        None \<Rightarrow> w
      | Some t \<Rightarrow>
         (case power_strike en self t w of
            (used, w1) \<Rightarrow> if \<not> used then basic_attack en self t w1 else w1))"

definition Mage_use_skill :: "env \<Rightarrow> nat \<Rightarrow> nat option \<Rightarrow> nat list \<Rightarrow> world \<Rightarrow> world" where
  "Mage_use_skill en self target allies w =
     (case target of
        None \<Rightarrow> w
      | Some t \<Rightarrow>
         (case fireball self t w of
            (used, w1) \<Rightarrow> if \<not> used then basic_attack en self t w1 else w1))"

definition Healer_use_skill :: "env \<Rightarrow> nat \<Rightarrow> nat option \<Rightarrow> nat list \<Rightarrow> world \<Rightarrow> world" where
  "Healer_use_skill en self target allies w =
     (case mass_heal self allies w of
        (used, w1) \<Rightarrow>
          if \<not> used then
            (case target of
               None \<Rightarrow> w1
             | Some t \<Rightarrow> if is_alive (heap w1 ! t) then basic_attack en self t w1 else w1)
          else w1)"

section \<open>The boss: phase, strategies and actions\<close>

definition phase_thresholds :: "real list" where
  "phase_thresholds = [0.66, 0.33]"

definition phase :: "character \<Rightarrow> int" where
  "phase self =
     (let ratio = (if max_hp self > 0 then hp self / max_hp self else 0) in
      if ratio > phase_thresholds ! 0 then 1
      else if ratio > phase_thresholds ! 1 then 2
      else 3)"

datatype strategy = AggressiveStrategy | DefensiveStrategy

text \<open>The dict \<open>self.strategies\<close> read at the key of the current phase.\<close>

definition choose_strategy :: "character \<Rightarrow> strategy" where
  "choose_strategy self =
     (if phase self = 1 then AggressiveStrategy
      else if phase self = 2 then DefensiveStrategy
      else AggressiveStrategy)"

text \<open>
  The builtins \<open>min(xs, key=f)\<close> and \<open>max(xs, key=f)\<close> on a list that is not empty:
  the first element with the least (greatest) key.
\<close>

fun first_min :: "('a \<Rightarrow> real) \<Rightarrow> 'a \<Rightarrow> 'a list \<Rightarrow> 'a" where
  "first_min key best [] = best"
| "first_min key best (x # xs) = first_min key (if key x < key best then x else best) xs"

fun first_max :: "('a \<Rightarrow> real) \<Rightarrow> 'a \<Rightarrow> 'a list \<Rightarrow> 'a" where
  "first_max key best [] = best"
| "first_max key best (x # xs) = first_max key (if key x > key best then x else best) xs"

definition living_of :: "character list \<Rightarrow> nat list \<Rightarrow> nat list" where
  "living_of h xs = filter (\<lambda>e. is_alive (h ! e)) xs"

fun choose_action ::
  "strategy \<Rightarrow> character list \<Rightarrow> nat \<Rightarrow> nat list \<Rightarrow> nat list \<Rightarrow> nat option \<times> string" where
  "choose_action AggressiveStrategy h boss allies enemies =
     (case living_of h enemies of
        [] \<Rightarrow> (None, ''wait'')
      | x # xs \<Rightarrow> (Some (first_min (\<lambda>e. hp (h ! e)) x xs), ''smash''))"
| "choose_action DefensiveStrategy h boss allies enemies =
     (if shield (h ! boss) < max_hp (h ! boss) * 0.15 then (Some boss, ''shield'')
      else (case living_of h enemies of
              [] \<Rightarrow> (None, ''wait'')
            | x # xs \<Rightarrow> (Some (first_max (\<lambda>e. strength (h ! e)) x xs), ''smash'')))"

definition smash :: "nat \<Rightarrow> nat \<Rightarrow> world \<Rightarrow> world" where
  "smash self target w =
     (let dmg = strength (heap w ! self) * 2.2;
          w1 = log_event (BossSmash (name (heap w ! self)) (name (heap w ! target))) w
      in on target (\<lambda>c. take_damage c dmg (Some self)) w1)"

definition shield_self :: "nat \<Rightarrow> world \<Rightarrow> world" where
  "shield_self self w =
     (let amt = intelligence (heap w ! self) * 3.5;
          w1 = log_event (BossShield (name (heap w ! self)) amt) w
      in on self (\<lambda>c. apply_effect c (ShieldEffect self amt 2)) w1)"

definition cast_silence :: "nat \<Rightarrow> nat \<Rightarrow> world \<Rightarrow> world" where
  "cast_silence self target w =
     (let w1 = log_event (BossSilence (name (heap w ! self)) (name (heap w ! target))) w
      in on target (\<lambda>c. apply_effect c (SilenceEffect self 1)) w1)"

text \<open>
  \<open>Boss.use_skill\<close>; \<open>enemies\<close> is the list passed as \<open>target\<close>. The call of
  \<open>random.choice\<close> is guarded by \<open>if candidates\<close>.
\<close>

definition Boss_use_skill :: "env \<Rightarrow> nat \<Rightarrow> nat list \<Rightarrow> nat list \<Rightarrow> world \<Rightarrow> world" where
  "Boss_use_skill en self enemies allies w =
     (let strat = choose_strategy (heap w ! self);
          (chosen_target, action) = choose_action strat (heap w) self allies enemies;
          w1 = (case (action = ''smash'', chosen_target) of
                  (True, Some t) \<Rightarrow> smash self t w
                | _ \<Rightarrow>
                   if action = ''shield'' then shield_self self w
                   else log_event (BossWait (name (heap w ! self))) w)
      in if phase (heap w1 ! self) = 3 \<and> enemies \<noteq> [] then
           (case random_random en w1 of
              (r, w2) \<Rightarrow>
                if r < 0.5 then
                  (let candidates = living_of (heap w2) enemies in
                   if candidates \<noteq> [] then
                     (case randbelow en (length candidates) w2 of
                        (k, w3) \<Rightarrow> cast_silence self (candidates ! k) w3)
                   else w2)
                else w2)
         else w1)"

section \<open>Items and the inventory\<close>

definition Item_use :: "item \<Rightarrow> character \<Rightarrow> character \<times> event list" where
  "Item_use it target =
     (let (t1, out1) = (if hp_restore it \<noteq> 0 then heal target (hp_restore it) else (target, []));
          (t2, out2) = (if mp_restore it \<noteq> 0 then restore_mp t1 (mp_restore it) else (t1, []))
      in (t2, out1 @ out2))"

text \<open>
  The dict \<open>Inventory.items\<close> keeps insertion order: writing an existing key keeps its
  place, a new key goes to the end.
\<close>

type_synonym items = "(string \<times> item \<times> int) list"

fun dict_set :: "string \<Rightarrow> 'v \<Rightarrow> (string \<times> 'v) list \<Rightarrow> (string \<times> 'v) list" where
  "dict_set k v [] = [(k, v)]"
| "dict_set k v (p # ps) = (if fst p = k then (k, v) # ps else p # dict_set k v ps)"

definition dict_del :: "string \<Rightarrow> (string \<times> 'v) list \<Rightarrow> (string \<times> 'v) list" where
  "dict_del k ps = filter (\<lambda>p. fst p \<noteq> k) ps"

definition Inventory_add :: "items \<Rightarrow> item \<Rightarrow> int \<Rightarrow> items" where
  "Inventory_add its it cnt =
     (case map_of its (item_name it) of
        Some (old, cur) \<Rightarrow> dict_set (item_name it) (it, cur + cnt) its
      | None \<Rightarrow> dict_set (item_name it) (it, cnt) its)"

definition Inventory_remove_by_name :: "items \<Rightarrow> string \<Rightarrow> int \<Rightarrow> bool \<times> items" where
  "Inventory_remove_by_name its nm cnt =
     (case map_of its nm of
        None \<Rightarrow> (False, its)
      | Some (it, cur) \<Rightarrow>
         if cur < cnt then (False, its)
         else if cur = cnt then (True, dict_del nm its)
         else (True, dict_set nm (it, cur - cnt) its))"

definition Inventory_has :: "items \<Rightarrow> string \<Rightarrow> bool" where
  "Inventory_has its nm = (case map_of its nm of None \<Rightarrow> False | Some (it, cur) \<Rightarrow> cur > 0)"

text \<open>
  \<open>Inventory.use\<close> on the inventory of the character \<open>owner\<close>: the item acts on the
  target, then one copy is removed from the owner's inventory.
\<close>

definition Inventory_use :: "nat \<Rightarrow> string \<Rightarrow> nat \<Rightarrow> world \<Rightarrow> bool \<times> world" where
  "Inventory_use owner nm target w =
     (if \<not> Inventory_has (inventory (heap w ! owner)) nm then (False, w)
      else (case map_of (inventory (heap w ! owner)) nm of
              None \<Rightarrow> (False, w)
            | Some (it, cur) \<Rightarrow>
               (let w1 = on target (Item_use it) w;
                    me = heap w1 ! owner;
                    its = snd (Inventory_remove_by_name (inventory me) nm 1)
                in (True, w1\<lparr>heap := (heap w1)[owner := me\<lparr>inventory := its\<rparr>]\<rparr>))))"

definition list_items :: "items \<Rightarrow> (string \<times> item \<times> int) list" where
  "list_items its = map (\<lambda>(nm, it, cnt). (nm, it, cnt)) its"

section \<open>Turn order\<close>

text \<open>
  \<open>random.shuffle\<close>: for i from len - 1 down to 1, swap the entries at i and at a
  random index of 0..i.
\<close>

fun shuffle_loop :: "env \<Rightarrow> nat \<Rightarrow> 'a list \<Rightarrow> world \<Rightarrow> 'a list \<times> world" where
  "shuffle_loop en 0 xs w = (xs, w)"
| "shuffle_loop en (Suc i) xs w =
     (case randbelow en (Suc i + 1) w of
        (j, w1) \<Rightarrow> shuffle_loop en i (xs[Suc i := xs ! j, j := xs ! Suc i]) w1)"

definition random_shuffle :: "env \<Rightarrow> 'a list \<Rightarrow> world \<Rightarrow> 'a list \<times> world" where
  "random_shuffle en xs w = shuffle_loop en (length xs - 1) xs w"

text \<open>
  \<open>list.sort(key=..., reverse=True)\<close>: descending by key and stable, elements with
  equal keys keep their order.
\<close>

fun insert_desc :: "('a \<Rightarrow> real) \<Rightarrow> 'a \<Rightarrow> 'a list \<Rightarrow> 'a list" where
  "insert_desc key x [] = [x]"
| "insert_desc key x (y # ys) =
     (if key x \<ge> key y then x # y # ys else y # insert_desc key x ys)"

definition sort_desc :: "('a \<Rightarrow> real) \<Rightarrow> 'a list \<Rightarrow> 'a list" where
  "sort_desc key xs = foldr (insert_desc key) xs []"

text \<open>\<open>TurnOrder.prepare_round\<close>: the new content of the deque \<open>_order\<close>.\<close>

definition prepare_round :: "env \<Rightarrow> nat list \<Rightarrow> world \<Rightarrow> nat list \<times> world" where
  "prepare_round en combs w =
     (let living = living_of (heap w) combs;
          (shuffled, w1) = random_shuffle en living w
      in (sort_desc (\<lambda>x. agility (heap w1 ! x)) shuffled, w1))"

text \<open>
  \<open>TurnOrder.__next__\<close> on the deque, with the heap as it is at the call: the combatant
  returned (\<open>None\<close> is StopIteration) and the deque afterwards.
\<close>

fun TurnOrder_next :: "character list \<Rightarrow> nat list \<Rightarrow> nat option \<times> nat list" where
  "TurnOrder_next h [] = (None, [])"
| "TurnOrder_next h (c # rest) =
     (if is_alive (h ! c) then (Some c, rest) else TurnOrder_next h rest)"

text \<open>Iterating a TurnOrder to its end while nothing else changes the heap.\<close>

function iterate :: "character list \<Rightarrow> nat list \<Rightarrow> nat list" where
  "iterate h order =
     (case TurnOrder_next h order of
        (None, rest) \<Rightarrow> []
      | (Some c, rest) \<Rightarrow> c # iterate h rest)"
  by pat_completeness auto

lemma TurnOrder_next_length:
  "(Some c, rest) = TurnOrder_next h order \<Longrightarrow> length rest < length order"
  by (induction order) (auto split: if_splits)

termination iterate
  by (relation "measure (\<lambda>(h, order). length order)") (auto dest: TurnOrder_next_length)

declare iterate.simps [simp del]

section \<open>The battle\<close>

text \<open>
  \<open>str.strip()\<close> and \<open>str.lower()\<close> on ASCII text; input beyond ASCII is outside the
  model.
\<close>

definition is_space :: "char \<Rightarrow> bool" where
  "is_space c = ((9::nat) \<le> of_char c \<and> (of_char c :: nat) \<le> 13
                 \<or> (28::nat) \<le> of_char c \<and> (of_char c :: nat) \<le> 32)"

definition strip :: "string \<Rightarrow> string" where
  "strip s = rev (dropWhile is_space (rev (dropWhile is_space s)))"

definition lower :: "string \<Rightarrow> string" where
  "lower s =
     map (\<lambda>c. if (65::nat) \<le> of_char c \<and> (of_char c :: nat) \<le> 90
               then char_of (of_char c + (32::nat)) else c) s"

text \<open>
  A Battle object; \<open>logger\<close> is the list \<open>entries\<close> of its RoundLogger and
  \<open>round_no\<close> its attribute \<open>round\<close>.
\<close>

record battle =
  party :: "nat list"
  boss :: nat
  combatants :: "nat list"
  round_no :: int
  logger :: "msg list"
  verbose :: bool

definition Battle_init :: "nat list \<Rightarrow> nat \<Rightarrow> bool \<Rightarrow> battle" where
  "Battle_init p bs vb =
     \<lparr>party = p, boss = bs, combatants = p @ [bs], round_no = 1, logger = [], verbose = vb\<rparr>"

definition record_msg :: "msg \<Rightarrow> battle \<Rightarrow> battle" where
  "record_msg m b = b\<lparr>logger := logger b @ [m]\<rparr>"

definition broadcast :: "battle \<Rightarrow> msg \<Rightarrow> world \<Rightarrow> battle \<times> world" where
  "broadcast b m w = (record_msg m b, if verbose b then print [Say m] w else w)"

definition dump :: "battle \<Rightarrow> world \<Rightarrow> world" where
  "dump b w = w\<lparr>log_file := Some (logger b)\<rparr>"

text \<open>\<open>input(prompt)\<close>: the prompt is printed and the next line typed is returned.\<close>

definition input :: "env \<Rightarrow> screen \<Rightarrow> world \<Rightarrow> string \<times> world" where
  "input en prompt w =
     (input_line en (reads w), (print [Screen prompt] w)\<lparr>reads := Suc (reads w)\<rparr>)"

definition any_alive :: "character list \<Rightarrow> nat list \<Rightarrow> bool" where
  "any_alive h xs = list_ex (\<lambda>x. is_alive (h ! x)) xs"

text \<open>The loops of \<open>tick_cooldowns\<close>: every counter above 0 of every combatant goes down by 1.\<close>

definition tick_one :: "character \<Rightarrow> character \<times> event list" where
  "tick_one c =
     (c\<lparr>cooldowns := map_option (\<lambda>n. if n > 0 then n - 1 else n) \<circ> cooldowns c\<rparr>, [])"

fun tick_cooldowns :: "nat list \<Rightarrow> world \<Rightarrow> world" where
  "tick_cooldowns [] w = w"
| "tick_cooldowns (c # cs) w = tick_cooldowns cs (on c tick_one w)"

fun inventory_lines :: "int \<Rightarrow> (string \<times> item \<times> int) list \<Rightarrow> line list" where
  "inventory_lines i [] = []"
| "inventory_lines i ((nm, it, cnt) # rest) =
     Screen (InventoryLine i nm cnt (description it)) # inventory_lines (i + 1) rest"

definition choose_item_from_hero :: "env \<Rightarrow> nat \<Rightarrow> world \<Rightarrow> string option \<times> world" where
  "choose_item_from_hero en hero w =
     (let its = list_items (inventory (heap w ! hero)) in
      if its = [] then (None, print [Screen InventoryEmpty] w)
      else
        (let w1 = print (Screen InventoryHeader # inventory_lines 1 its) w;
             (typed, w2) = input en ItemPrompt w1;
             choice = strip typed
         in if choice = [] then (None, w2)
            else (case int_of_str en choice of
                    None \<Rightarrow> (None, print [Screen InvalidItem] w2)
                  | Some n \<Rightarrow>
                     (let idx = n - 1 in
                      if 0 \<le> idx \<and> idx < int (length its)
                      then (Some (fst (its ! nat idx)), w2)
                      else (None, print [Screen InvalidItem] w2)))))"

text \<open>
  \<open>hero.use_skill(target=self.boss, allies=self.party)\<close>, dispatched on the class of the
  hero. The menu is never reached by a Boss: \<open>run\<close> handles a Boss actor before it.
\<close>

definition use_skill :: "env \<Rightarrow> nat \<Rightarrow> nat \<Rightarrow> nat list \<Rightarrow> world \<Rightarrow> world" where
  "use_skill en self target allies w =
     (case kind (heap w ! self) of
        Warrior \<Rightarrow> Warrior_use_skill en self (Some target) allies w
      | Mage \<Rightarrow> Mage_use_skill en self (Some target) allies w
      | Healer \<Rightarrow> Healer_use_skill en self (Some target) allies w
      | Boss \<Rightarrow> w)"

definition hero_menu_action :: "env \<Rightarrow> battle \<Rightarrow> nat \<Rightarrow> world \<Rightarrow> bool \<times> world" where
  "hero_menu_action en b hero w =
     (let me = heap w ! hero;
          w1 = print [Screen (HeroHeader (name me) (hp me) (max_hp me) (mp me) (max_mp me)),
                      Screen MenuExit, Screen MenuAttack, Screen MenuSkill, Screen MenuItem] w;
          (typed, w2) = input en ActionPrompt w1;
          choice = strip typed
      in if choice = ''0'' then
           (let (typed2, w3) = input en ConfirmPrompt w2;
                confirm = lower (strip typed2)
            in if confirm = ''yes'' then (True, w3) else (False, w3))
         else if choice = ''1'' then (False, basic_attack en hero (boss b) w2)
         else if choice = ''2'' then (False, use_skill en hero (boss b) (party b) w2)
         else if choice = ''3'' then
           (case choose_item_from_hero en hero w2 of
              (Some item_nm, w3) \<Rightarrow>
                (if item_nm \<noteq> [] then
                   (case Inventory_use hero item_nm hero w3 of
                      (used, w4) \<Rightarrow>
                        if used then (False, print [Screen (ItemUsed (name (heap w4 ! hero)) item_nm)] w4)
                        else (False, print [Screen ItemFailed] w4))
                 else (False, print [Screen ItemSkipped] w3))
            | (None, w3) \<Rightarrow> (False, print [Screen ItemSkipped] w3))
         else (False, basic_attack en hero (boss b) (print [Screen InvalidInput] w2)))"

text \<open>How the body of the loop over the turn order ends.\<close>

datatype signal = Next | Break | Return bool | Raise error

text \<open>Lines 611 to 629 of \<open>run\<close>: the turn of a hero that is alive.\<close>

definition hero_turn :: "env \<Rightarrow> battle \<Rightarrow> nat \<Rightarrow> world \<Rightarrow> signal \<times> battle \<times> world" where
  "hero_turn en b hero w =
     (let boss_hp_before = hp (heap w ! boss b);
          (exit_battle, w1) = hero_menu_action en b hero w
      in if exit_battle then
           (let (b1, w2) = broadcast b PlayerExit w1 in (Return False, b1, dump b1 w2))
         else
           (let boss_took_damage = (boss_hp_before > hp (heap w1 ! boss b)) in
            if boss_took_damage \<and> is_alive (heap w1 ! boss b) \<and> any_alive (heap w1) (party b)
            then
              (case random_choice en (living_of (heap w1) (party b)) w1 of
                 (Inl e, w2) \<Rightarrow> (Raise e, b, w2)
               | (Inr target, w2) \<Rightarrow>
                  (let (b1, w3) =
                         broadcast b
                           (Retaliation (name (heap w2 ! boss b)) (name (heap w2 ! target))) w2;
                       w4 = smash (boss b) target w3
                   in if \<not> any_alive (heap w4) (party b) then (Break, b1, w4)
                      else if \<not> any_alive (heap w4) (party b) \<or> \<not> is_alive (heap w4 ! boss b)
                      then (Break, b1, w4)
                      else (Next, b1, w4)))
            else if \<not> any_alive (heap w1) (party b) \<or> \<not> is_alive (heap w1 ! boss b)
            then (Break, b, w1)
            else (Next, b, w1)))"

text \<open>Lines 599 to 629: the body of the loop for one actor.\<close>

definition actor_turn :: "env \<Rightarrow> battle \<Rightarrow> nat \<Rightarrow> world \<Rightarrow> signal \<times> battle \<times> world" where
  "actor_turn en b actor w =
     (if \<not> is_alive (heap w ! actor) then (Next, b, w)
      else
        (let w1 = on actor start_turn_effects w in
         if \<not> is_alive (heap w1 ! actor) then (Next, b, w1)
         else if kind (heap w1 ! actor) = Boss then
           (let w2 = Boss_use_skill en actor (party b) [boss b] w1 in
            if \<not> any_alive (heap w2) (party b) then (Break, b, w2) else (Next, b, w2))
         else hero_turn en b actor w1))"

text \<open>
  The loop \<open>for actor in order\<close>: \<open>__next__\<close> is called on the deque with the heap as
  it is then; the loop goes on while the body ends normally.
\<close>

function turns :: "env \<Rightarrow> battle \<Rightarrow> nat list \<Rightarrow> world \<Rightarrow> signal \<times> battle \<times> world" where
  "turns en b order w =
     (case TurnOrder_next (heap w) order of
        (None, rest) \<Rightarrow> (Next, b, w)
      | (Some actor, rest) \<Rightarrow>
         (case actor_turn en b actor w of
            (Next, b1, w1) \<Rightarrow> turns en b1 rest w1
          | (Break, b1, w1) \<Rightarrow> (Break, b1, w1)
          | (Return r, b1, w1) \<Rightarrow> (Return r, b1, w1)
          | (Raise e, b1, w1) \<Rightarrow> (Raise e, b1, w1)))"
  by pat_completeness auto

termination turns
  by (relation "measure (\<lambda>(en, b, order, w). length order)") (auto dest: TurnOrder_next_length)

declare turns.simps [simp del]

text \<open>
  One round: the block under \<open>with log_round\<close>, whose \<open>finally\<close> records the end of
  the round however the block is left.
\<close>

definition round_body :: "env \<Rightarrow> battle \<Rightarrow> world \<Rightarrow> signal \<times> battle \<times> world" where
  "round_body en b w =
     (let round_number = round_no b;
          b1 = record_msg (RoundBegin round_number) b;
          (b2, w1) = broadcast b1 (RoundHeader (round_no b1) (phase (heap w ! boss b1))) w;
          (order, w2) = prepare_round en (combatants b2) w1;
          (s, b3, w3) = turns en b2 order w2
      in case s of
           Return r \<Rightarrow> (s, record_msg (RoundEnd round_number) b3, w3)
         | Raise e \<Rightarrow> (s, record_msg (RoundEnd round_number) b3, w3)
         | _ \<Rightarrow> (s, record_msg (RoundEnd round_number) b3, tick_cooldowns (combatants b3) w3))"

text \<open>The end of \<open>run\<close>, after the loop over the rounds.\<close>

definition finish :: "battle \<Rightarrow> world \<Rightarrow> (error + bool) \<times> battle \<times> world" where
  "finish b w =
     (if is_alive (heap w ! boss b)
      then (let (b1, w1) = broadcast b BossWins w in (Inr False, b1, dump b1 w1))
      else (let (b1, w1) = broadcast b PartyWins w in (Inr True, b1, dump b1 w1)))"

section \<open>Sample objects for closed examples\<close>

text \<open>
  A heap with a warrior (reference 0), a mage (1), a healer (2) and a boss (3), as
  \<open>make_sample_party\<close> and \<open>main\<close> build them, without the inventories.
\<close>

definition sample_world :: world where
  "sample_world =
     \<lparr>heap = [Warrior_init ''w'', Mage_init ''m'', Healer_init ''h'', Boss_init ''b''],
      stdout = [], draws = 0, reads = 0, log_file = None\<rparr>"

text \<open>An environment whose random generator always returns its least value.\<close>

definition low_env :: env where
  "low_env = \<lparr>rand_real = (\<lambda>k. 0), rand_nat = (\<lambda>k. 0), input_line = (\<lambda>k. ''1''),
               int_of_str = (\<lambda>s. None)\<rparr>"

text \<open>An environment whose random generator always returns 0.99.\<close>

definition high_env :: env where
  "high_env = \<lparr>rand_real = (\<lambda>k. 0.99), rand_nat = (\<lambda>k. 0), input_line = (\<lambda>k. ''1''),
                int_of_str = (\<lambda>s. None)\<rparr>"

text \<open>An environment whose player always chooses the skill and whose crit rolls fail.\<close>

definition skill_env :: env where
  "skill_env = \<lparr>rand_real = (\<lambda>k. 0.99), rand_nat = (\<lambda>k. k), input_line = (\<lambda>k. ''2''),
                 int_of_str = (\<lambda>s. None)\<rparr>"


text \<open>The sample world after the boss has cast silence on each of the three heroes.\<close>

definition silenced_world :: world where
  "silenced_world = cast_silence 3 2 (cast_silence 3 1 (cast_silence 3 0 sample_world))"

text \<open>The battle of \<open>main\<close> on the sample world.\<close>

definition sample_battle :: battle where
  "sample_battle = Battle_init [0, 1, 2] 3 True"

section \<open>Observations on the logs\<close>

text \<open>
  The retaliation strikes recorded by the battle logger, the smashes announced on the
  output, and the skill calls refused because of silence.
\<close>

fun is_Retaliation :: "msg \<Rightarrow> bool" where
  "is_Retaliation (Retaliation a t) = True"
| "is_Retaliation m = False"

fun is_smash :: "line \<Rightarrow> bool" where
  "is_smash (Log (BossSmash a t)) = True"
| "is_smash l = False"

fun is_refused_by_silence :: "line \<Rightarrow> bool" where
  "is_refused_by_silence (Log (SkillSilenced a sk)) = True"
| "is_refused_by_silence l = False"

definition retaliations :: "battle \<Rightarrow> nat" where
  "retaliations b = length (filter is_Retaliation (logger b))"

definition smashes :: "world \<Rightarrow> nat" where
  "smashes w = length (filter is_smash (stdout w))"

definition refusals_by_silence :: "world \<Rightarrow> nat" where
  "refusals_by_silence w = length (filter is_refused_by_silence (stdout w))"

text \<open>An output of a method that reports no refusal because of silence.\<close>

definition quiet :: "event list \<Rightarrow> bool" where
  "quiet out = (filter is_refused_by_silence (map Log out) = [])"

section \<open>Invariants of characters\<close>

text \<open>Every silence on the character has the duration that \<open>cast_silence\<close> gives it.\<close>

definition short_silences :: "character \<Rightarrow> bool" where
  "short_silences c = list_all (\<lambda>e. is_SilenceEffect e \<longrightarrow> duration e = 1) (effects c)"


text \<open>
  A property of characters is stable when the methods of a character that the battle
  calls keep it: damage, healing, paying mana, setting and ticking cooldowns, attaching
  the three effects that skills create, the start-of-turn effects, and changes of the
  inventory.
\<close>

definition stable :: "(character \<Rightarrow> bool) \<Rightarrow> bool" where
  "stable P =
     (\<forall>c. P c \<longrightarrow>
        (\<forall>amt src. P (fst (take_damage c amt src))) \<and>
        (\<forall>amt. P (fst (heal c amt))) \<and>
        (\<forall>amt. P (fst (restore_mp c amt))) \<and>
        (\<forall>amt. 0 \<le> amt \<longrightarrow> P (snd (spend_mp c amt))) \<and>
        (\<forall>k n. P (set_cooldown k n c)) \<and>
        (\<forall>s d. P (fst (apply_effect c (DotEffect s d 2)))) \<and>
        (\<forall>s a. P (fst (apply_effect c (ShieldEffect s a 2)))) \<and>
        (\<forall>s. P (fst (apply_effect c (SilenceEffect s 1)))) \<and>
        P (fst (start_turn_effects c)) \<and>
        P (fst (tick_one c)) \<and>
        (\<forall>its. P (c\<lparr>inventory := its\<rparr>)))"

text \<open>
  From one world to a later one the heap keeps its length and a property of all its
  characters.
\<close>

definition keeps :: "(character \<Rightarrow> bool) \<Rightarrow> world \<Rightarrow> world \<Rightarrow> bool" where
  "keeps P w w' =
     (length (heap w') = length (heap w) \<and> (list_all P (heap w) \<longrightarrow> list_all P (heap w')))"

text \<open>Every combatant of the battle is a reference into the heap.\<close>

definition valid_refs :: "battle \<Rightarrow> world \<Rightarrow> bool" where
  "valid_refs b w = list_all (\<lambda>x. x < length (heap w)) (combatants b)"

section \<open>The loop over the rounds\<close>

text \<open>The round number is not changed inside a round; the loop over the rounds ends.\<close>

lemma record_msg_simps [simp]:
  "party (record_msg m b) = party b"
  "boss (record_msg m b) = boss b"
  "combatants (record_msg m b) = combatants b"
  "round_no (record_msg m b) = round_no b"
  "verbose (record_msg m b) = verbose b"
  "logger (record_msg m b) = logger b @ [m]"
  by (simp_all add: record_msg_def)

lemma hero_turn_round_no:
  "hero_turn en b hero w = (s, b', w') \<Longrightarrow> round_no b' = round_no b"
  by (auto simp: hero_turn_def Let_def broadcast_def split: prod.splits if_splits sum.splits)

lemma actor_turn_round_no:
  "actor_turn en b actor w = (s, b', w') \<Longrightarrow> round_no b' = round_no b"
  by (auto simp: actor_turn_def Let_def split: if_splits dest: hero_turn_round_no)

lemma turns_round_no:
  "turns en b order w = (s, b', w') \<Longrightarrow> round_no b' = round_no b"
proof (induction en b order w rule: turns.induct)
  case (1 en b order w)
  show ?case
  proof (cases "TurnOrder_next (heap w) order")
    case (Pair a rest)
    show ?thesis
    proof (cases a)
      case None
      with Pair "1.prems" show ?thesis by (simp add: turns.simps [of en b order w])
    next
      case (Some actor)
      obtain s1 b1 w1 where at: "actor_turn en b actor w = (s1, b1, w1)"
        by (cases "actor_turn en b actor w") auto
      have r1: "round_no b1 = round_no b" using at by (rule actor_turn_round_no)
      show ?thesis
      proof (cases s1)
        case Next
        with Pair Some at "1.prems" have "turns en b1 rest w1 = (s, b', w')"
          by (simp add: turns.simps [of en b order w])
        with "1.IH" [OF Pair [symmetric] Some at [symmetric] Next] r1 show ?thesis
          by simp
      qed (use Pair Some at "1.prems" r1 in \<open>auto simp: turns.simps [of en b order w]\<close>)
    qed
  qed
qed

lemma round_body_round_no:
  "round_body en b w = (s, b', w') \<Longrightarrow> round_no b' = round_no b"
  by (auto simp: round_body_def Let_def broadcast_def split: prod.splits signal.splits
      dest!: turns_round_no)

text \<open>
  The loop \<open>while self.round <= max_rounds and ...\<close>. A \<open>return\<close> inside the round
  ends \<open>run\<close> with its value, an exception ends it with the error.
\<close>

function run_loop :: "env \<Rightarrow> int \<Rightarrow> battle \<Rightarrow> world \<Rightarrow> (error + bool) \<times> battle \<times> world" where
  "run_loop en max_rounds b w =
     (if round_no b \<le> max_rounds \<and> is_alive (heap w ! boss b) \<and> any_alive (heap w) (party b)
      then
        (case round_body en b w of
           (Return r, b1, w1) \<Rightarrow> (Inr r, b1, w1)
         | (Raise e, b1, w1) \<Rightarrow> (Inl e, b1, w1)
         | (Next, b1, w1) \<Rightarrow> run_loop en max_rounds (b1\<lparr>round_no := round_no b1 + 1\<rparr>) w1
         | (Break, b1, w1) \<Rightarrow> run_loop en max_rounds (b1\<lparr>round_no := round_no b1 + 1\<rparr>) w1)
      else finish b w)"
  by pat_completeness auto

termination run_loop
  by (relation "measure (\<lambda>(en, max_rounds, b, w). nat (max_rounds + 1 - round_no b))")
     (auto dest!: round_body_round_no [OF sym])

declare run_loop.simps [simp del]

definition run :: "env \<Rightarrow> int \<Rightarrow> battle \<Rightarrow> world \<Rightarrow> (error + bool) \<times> battle \<times> world" where
  "run en max_rounds b w =
     (let (b0, w0) = broadcast b BattleStart w in run_loop en max_rounds b0 w0)"


section \<open>Reading and writing the stats\<close>

lemma private_names [simp]:
  "private_name hp_stat = ''_hp''"
  "private_name mp_stat = ''_mp''"
  "private_name strength_stat = ''_strength''"
  "private_name agility_stat = ''_agility''"
  "private_name intelligence_stat = ''_intelligence''"
  by (simp_all add: hp_stat_def mp_stat_def strength_stat_def agility_stat_def
      intelligence_stat_def BoundedStat_init_def)

lemma clamp_stats [simp]:
  "clamp_stat hp_stat v = max 0 v"
  "clamp_stat mp_stat v = max 0 v"
  "clamp_stat strength_stat v = max 0 v"
  "clamp_stat agility_stat v = max 0 v"
  "clamp_stat intelligence_stat v = max 0 v"
  by (simp_all add: clamp_stat_def hp_stat_def mp_stat_def strength_stat_def agility_stat_def
      intelligence_stat_def BoundedStat_init_def)

lemmas stat_defs =
  hp_def mp_def strength_def agility_def intelligence_def
  set_hp_def set_mp_def set_strength_def set_agility_def set_intelligence_def
  BoundedStat_get_def stat_store_def

lemma get_set_hp [simp]:
  "hp (set_hp v c) = max 0 v"
  "mp (set_hp v c) = mp c"
  "strength (set_hp v c) = strength c"
  "agility (set_hp v c) = agility c"
  "intelligence (set_hp v c) = intelligence c"
  by (simp_all add: stat_defs)

lemma get_set_mp [simp]:
  "hp (set_mp v c) = hp c"
  "mp (set_mp v c) = max 0 v"
  "strength (set_mp v c) = strength c"
  "agility (set_mp v c) = agility c"
  "intelligence (set_mp v c) = intelligence c"
  by (simp_all add: stat_defs)

lemma get_set_strength [simp]:
  "hp (set_strength v c) = hp c"
  "mp (set_strength v c) = mp c"
  "strength (set_strength v c) = max 0 v"
  "agility (set_strength v c) = agility c"
  "intelligence (set_strength v c) = intelligence c"
  by (simp_all add: stat_defs)

lemma get_set_agility [simp]:
  "hp (set_agility v c) = hp c"
  "mp (set_agility v c) = mp c"
  "strength (set_agility v c) = strength c"
  "agility (set_agility v c) = max 0 v"
  "intelligence (set_agility v c) = intelligence c"
  by (simp_all add: stat_defs)

lemma get_set_intelligence [simp]:
  "hp (set_intelligence v c) = hp c"
  "mp (set_intelligence v c) = mp c"
  "strength (set_intelligence v c) = strength c"
  "agility (set_intelligence v c) = agility c"
  "intelligence (set_intelligence v c) = max 0 v"
  by (simp_all add: stat_defs)

lemma set_hp_fields [simp]:
  "kind (set_hp v c) = kind c" "name (set_hp v c) = name c" "level (set_hp v c) = level c"
  "max_hp (set_hp v c) = max_hp c" "max_mp (set_hp v c) = max_mp c"
  "effects (set_hp v c) = effects c" "shield (set_hp v c) = shield c"
  "cooldowns (set_hp v c) = cooldowns c" "inventory (set_hp v c) = inventory c"
  "crit_chance (set_hp v c) = crit_chance c" "crit_multiplier (set_hp v c) = crit_multiplier c"
  by (simp_all add: set_hp_def)

lemma set_mp_fields [simp]:
  "kind (set_mp v c) = kind c" "name (set_mp v c) = name c" "level (set_mp v c) = level c"
  "max_hp (set_mp v c) = max_hp c" "max_mp (set_mp v c) = max_mp c"
  "effects (set_mp v c) = effects c" "shield (set_mp v c) = shield c"
  "cooldowns (set_mp v c) = cooldowns c" "inventory (set_mp v c) = inventory c"
  "crit_chance (set_mp v c) = crit_chance c" "crit_multiplier (set_mp v c) = crit_multiplier c"
  by (simp_all add: set_mp_def)

lemma set_strength_fields [simp]:
  "kind (set_strength v c) = kind c"
  "name (set_strength v c) = name c"
  "level (set_strength v c) = level c"
  "max_hp (set_strength v c) = max_hp c"
  "max_mp (set_strength v c) = max_mp c"
  "effects (set_strength v c) = effects c"
  "shield (set_strength v c) = shield c"
  "cooldowns (set_strength v c) = cooldowns c"
  "inventory (set_strength v c) = inventory c"
  "crit_chance (set_strength v c) = crit_chance c"
  "crit_multiplier (set_strength v c) = crit_multiplier c"
  by (simp_all add: set_strength_def)

lemma set_agility_fields [simp]:
  "kind (set_agility v c) = kind c"
  "name (set_agility v c) = name c"
  "level (set_agility v c) = level c"
  "max_hp (set_agility v c) = max_hp c"
  "max_mp (set_agility v c) = max_mp c"
  "effects (set_agility v c) = effects c"
  "shield (set_agility v c) = shield c"
  "cooldowns (set_agility v c) = cooldowns c"
  "inventory (set_agility v c) = inventory c"
  "crit_chance (set_agility v c) = crit_chance c"
  "crit_multiplier (set_agility v c) = crit_multiplier c"
  by (simp_all add: set_agility_def)

lemma set_intelligence_fields [simp]:
  "kind (set_intelligence v c) = kind c"
  "name (set_intelligence v c) = name c"
  "level (set_intelligence v c) = level c"
  "max_hp (set_intelligence v c) = max_hp c"
  "max_mp (set_intelligence v c) = max_mp c"
  "effects (set_intelligence v c) = effects c"
  "shield (set_intelligence v c) = shield c"
  "cooldowns (set_intelligence v c) = cooldowns c"
  "inventory (set_intelligence v c) = inventory c"
  "crit_chance (set_intelligence v c) = crit_chance c"
  "crit_multiplier (set_intelligence v c) = crit_multiplier c"
  by (simp_all add: set_intelligence_def)

lemma stats_of_update [simp]:
  "hp (c\<lparr>shield := s\<rparr>) = hp c" "mp (c\<lparr>shield := s\<rparr>) = mp c"
  "strength (c\<lparr>shield := s\<rparr>) = strength c" "agility (c\<lparr>shield := s\<rparr>) = agility c"
  "intelligence (c\<lparr>shield := s\<rparr>) = intelligence c"
  "hp (c\<lparr>effects := es\<rparr>) = hp c" "mp (c\<lparr>effects := es\<rparr>) = mp c"
  "strength (c\<lparr>effects := es\<rparr>) = strength c" "agility (c\<lparr>effects := es\<rparr>) = agility c"
  "intelligence (c\<lparr>effects := es\<rparr>) = intelligence c"
  "hp (c\<lparr>cooldowns := cds\<rparr>) = hp c" "mp (c\<lparr>cooldowns := cds\<rparr>) = mp c"
  "strength (c\<lparr>cooldowns := cds\<rparr>) = strength c" "agility (c\<lparr>cooldowns := cds\<rparr>) = agility c"
  "intelligence (c\<lparr>cooldowns := cds\<rparr>) = intelligence c"
  "hp (c\<lparr>inventory := ivs\<rparr>) = hp c" "mp (c\<lparr>inventory := ivs\<rparr>) = mp c"
  "hp (c\<lparr>crit_chance := cc\<rparr>) = hp c" "mp (c\<lparr>crit_chance := cc\<rparr>) = mp c"
  "strength (c\<lparr>crit_chance := cc\<rparr>) = strength c" "agility (c\<lparr>crit_chance := cc\<rparr>) = agility c"
  "intelligence (c\<lparr>crit_chance := cc\<rparr>) = intelligence c"
  by (simp_all add: hp_def mp_def strength_def agility_def intelligence_def)

lemma init_stats:
  "hp (Character_init k nm lvl mhp mmp str agi intel) = max 0 mhp"
  "mp (Character_init k nm lvl mhp mmp str agi intel) = max 0 mmp"
  "strength (Character_init k nm lvl mhp mmp str agi intel) = max 0 str"
  "agility (Character_init k nm lvl mhp mmp str agi intel) = max 0 agi"
  "intelligence (Character_init k nm lvl mhp mmp str agi intel) = max 0 intel"
  "max_hp (Character_init k nm lvl mhp mmp str agi intel) = mhp"
  "max_mp (Character_init k nm lvl mhp mmp str agi intel) = mmp"
  by (simp_all add: Character_init_def)

lemma init_fields:
  "kind (Character_init k nm lvl mhp mmp str agi intel) = k"
  "name (Character_init k nm lvl mhp mmp str agi intel) = nm"
  "level (Character_init k nm lvl mhp mmp str agi intel) = lvl"
  "effects (Character_init k nm lvl mhp mmp str agi intel) = []"
  "shield (Character_init k nm lvl mhp mmp str agi intel) = 0"
  "cooldowns (Character_init k nm lvl mhp mmp str agi intel) = Map.empty"
  "inventory (Character_init k nm lvl mhp mmp str agi intel) = []"
  "crit_chance (Character_init k nm lvl mhp mmp str agi intel) = 0"
  "crit_multiplier (Character_init k nm lvl mhp mmp str agi intel) = 1.5"
  by (simp_all add: Character_init_def)

section \<open>Assignment to a bounded stat\<close>

lemma py_float_decimal_42: "py_float float_of_decimal (PyStr ''42'') = Inr 42"
  by (simp add: unsigned_decimal_def is_digit_def)





lemma BoundedStat_set_fail:
  "py_float parse v = Inl e \<Longrightarrow>
   BoundedStat_set parse d inst v =
     (Some (if e = TypeError \<or> e = ValueError then TypeError else e), inst)"
  by (simp add: BoundedStat_set_def)

lemma BoundedStat_set_ok:
  "py_float parse v = Inr x \<Longrightarrow>
   BoundedStat_set parse d inst v = (None, inst(private_name d \<mapsto> clamp_stat d x))"
  by (simp add: BoundedStat_set_def stat_store_def)

lemma clamp_stat_range:
  "stat_min d \<le> clamp_stat d x"
  "stat_max d = Some m \<Longrightarrow> stat_min d \<le> m \<Longrightarrow> clamp_stat d x \<le> m"
  "stat_min d \<le> x \<Longrightarrow> (\<And>m. stat_max d = Some m \<Longrightarrow> x \<le> m) \<Longrightarrow> clamp_stat d x = x"
  by (auto simp: clamp_stat_def split: option.splits)




text \<open>
  C10: the assignment raises exactly when \<open>float(value)\<close> fails; the string "42" is
  converted to 42, clamped and stored.
\<close>

theorem C10_raises_iff_float_fails:
  "(fst (BoundedStat_set parse d inst v) \<noteq> None) = isl (py_float parse v) \<and>
   BoundedStat_set float_of_decimal d inst (PyStr ''42'') =
     (None, inst(private_name d \<mapsto> clamp_stat d 42))"
proof -
  have "(fst (BoundedStat_set parse d inst v) \<noteq> None) = isl (py_float parse v)"
    by (cases "py_float parse v") (simp_all add: BoundedStat_set_fail BoundedStat_set_ok)
  then show ?thesis
    by (simp add: BoundedStat_set_ok [OF py_float_decimal_42])
qed

section \<open>Damage and the shield\<close>

text \<open>
  C2: with a shield S that is not negative and an amount A that is not negative,
  \<open>take_damage\<close> leaves the shield at S - min(S, A), reports min(S, A) as absorbed when
  the shield is active, and leaves hp at max(0, hp - max(0, A - S)).
\<close>

theorem C2_take_damage_shield:
  assumes "0 \<le> shield c" and "0 \<le> A" and "0 \<le> hp c"
  shows "shield (fst (take_damage c A src)) = shield c - min (shield c) A \<and>
         hp (fst (take_damage c A src)) = max 0 (hp c - max 0 (A - shield c)) \<and>
         (0 < shield c \<longrightarrow> ShieldAbsorbed (name c) (min (shield c) A) \<in> set (snd (take_damage c A src)))"
proof (cases "0 < shield c")
  case True
  then show ?thesis using assms
    by (auto simp: take_damage_def Let_def min_def max_def)
next
  case False
  with assms have "shield c = 0" by simp
  then show ?thesis using assms
    by (auto simp: take_damage_def Let_def min_def max_def)
qed

theorem C2_take_damage_witness:
  "shield (fst (take_damage ((Warrior_init ''w'')\<lparr>shield := 30\<rparr>) 50 None)) = 0 \<and>
   hp (fst (take_damage ((Warrior_init ''w'')\<lparr>shield := 30\<rparr>) 50 None)) = 130"
  using C2_take_damage_shield [of "(Warrior_init ''w'')\<lparr>shield := 30\<rparr>" 50 None]
  by (simp add: Warrior_init_def init_stats)

section \<open>The phase of the boss\<close>

text \<open>
  C3: the phase is decided by the ratio hp / max_hp alone: above 0.66 it is 1, above 0.33
  and at most 0.66 it is 2, at most 0.33 it is 3; two states with the same ratio have the
  same phase, whatever else they hold.
\<close>

theorem C3_phase_of_ratio:
  assumes "0 < max_hp b"
  shows "phase b = (if hp b / max_hp b > 0.66 then 1
                    else if hp b / max_hp b > 0.33 then 2 else 3) \<and>
         (\<forall>b'. 0 < max_hp b' \<and> hp b' / max_hp b' = hp b / max_hp b \<longrightarrow> phase b' = phase b)"
  using assms by (simp add: phase_def phase_thresholds_def)

theorem C3_phase_witness:
  "phase (set_hp 240 (Boss_init ''b'')) = 2 \<and> phase (Boss_init ''b'') = 1 \<and>
   phase (set_hp 198 (Boss_init ''b'')) = 3"
  using C3_phase_of_ratio [of "set_hp 240 (Boss_init ''b'')"]
        C3_phase_of_ratio [of "Boss_init ''b''"]
        C3_phase_of_ratio [of "set_hp 198 (Boss_init ''b'')"]
  by (simp add: Boss_init_def init_stats)

section \<open>Signature skills\<close>


lemma print_simps [simp]:
  "heap (print ls w) = heap w" "stdout (print ls w) = stdout w @ ls"
  "draws (print ls w) = draws w" "reads (print ls w) = reads w"
  "log_file (print ls w) = log_file w"
  by (simp_all add: print_def)

lemma log_event_simps [simp]:
  "heap (log_event e w) = heap w" "stdout (log_event e w) = stdout w @ [Log e]"
  "draws (log_event e w) = draws w" "reads (log_event e w) = reads w"
  "log_file (log_event e w) = log_file w"
  by (simp_all add: log_event_def)

lemma on_simps [simp]:
  "heap (on i f w) = (heap w)[i := fst (f (heap w ! i))]"
  "stdout (on i f w) = stdout w @ map Log (snd (f (heap w ! i)))"
  "draws (on i f w) = draws w" "reads (on i f w) = reads w"
  "log_file (on i f w) = log_file w"
  by (simp_all add: on_def split: prod.splits)

lemma roll_crit_eq:
  "roll_crit en self w =
     (rand_real en (draws w) < crit_chance (heap w ! self), w\<lparr>draws := Suc (draws w)\<rparr>)"
  by (simp add: roll_crit_def random_random_def)

lemma power_strike_fails:
  assumes "is_silenced (heap w ! self) \<or> cooldown_of (heap w ! self) ''power_strike'' > 0
           \<or> mp (heap w ! self) < 8"
  shows "fst (power_strike en self target w) = False \<and>
         heap (snd (power_strike en self target w)) = heap w"
  using assms by (auto simp: power_strike_def Let_def spend_mp_def)

lemma fireball_fails:
  assumes "is_silenced (heap w ! self) \<or> cooldown_of (heap w ! self) ''fireball'' > 0
           \<or> mp (heap w ! self) < 20"
  shows "fst (fireball self target w) = False \<and> heap (snd (fireball self target w)) = heap w"
  using assms by (auto simp: fireball_def Let_def spend_mp_def)

lemma mass_heal_fails:
  assumes "is_silenced (heap w ! self) \<or> cooldown_of (heap w ! self) ''mass_heal'' > 0
           \<or> mp (heap w ! self) < 25"
  shows "fst (mass_heal self allies w) = False \<and> heap (snd (mass_heal self allies w)) = heap w"
  using assms by (auto simp: mass_heal_def Let_def spend_mp_def)

text \<open>
  C1: a call of a signature skill by a caster that is silenced, or whose counter for the
  skill is above 0, or whose mp is below the cost (8, 20, 25) returns False and leaves the
  whole heap, so the caster's mp and the counter, unchanged. Silence alone is enough.
\<close>

theorem C1_blocked_skill_fails:
  "(is_silenced (heap w ! self) \<or> cooldown_of (heap w ! self) ''power_strike'' > 0
      \<or> mp (heap w ! self) < 8 \<longrightarrow>
      \<not> fst (power_strike en self target w) \<and>
      heap (snd (power_strike en self target w)) = heap w \<and>
      mp (heap (snd (power_strike en self target w)) ! self) = mp (heap w ! self) \<and>
      cooldown_of (heap (snd (power_strike en self target w)) ! self) ''power_strike'' =
        cooldown_of (heap w ! self) ''power_strike'') \<and>
   (is_silenced (heap w ! self) \<or> cooldown_of (heap w ! self) ''fireball'' > 0
      \<or> mp (heap w ! self) < 20 \<longrightarrow>
      \<not> fst (fireball self target w) \<and>
      heap (snd (fireball self target w)) = heap w \<and>
      mp (heap (snd (fireball self target w)) ! self) = mp (heap w ! self) \<and>
      cooldown_of (heap (snd (fireball self target w)) ! self) ''fireball'' =
        cooldown_of (heap w ! self) ''fireball'') \<and>
   (is_silenced (heap w ! self) \<or> cooldown_of (heap w ! self) ''mass_heal'' > 0
      \<or> mp (heap w ! self) < 25 \<longrightarrow>
      \<not> fst (mass_heal self allies w) \<and>
      heap (snd (mass_heal self allies w)) = heap w \<and>
      mp (heap (snd (mass_heal self allies w)) ! self) = mp (heap w ! self) \<and>
      cooldown_of (heap (snd (mass_heal self allies w)) ! self) ''mass_heal'' =
        cooldown_of (heap w ! self) ''mass_heal'')"
  using power_strike_fails [of w self en target] fireball_fails [of w self target]
    mass_heal_fails [of w self allies]
  by simp

lemma silenced_world_heap:
  "is_silenced (heap silenced_world ! 0)" "is_silenced (heap silenced_world ! 1)"
  "is_silenced (heap silenced_world ! 2)"
  by (simp_all add: silenced_world_def cast_silence_def sample_world_def Let_def
      apply_effect_def is_silenced_def)

theorem C1_blocked_skill_witness:
  "is_silenced (heap silenced_world ! 0) \<and>
   \<not> fst (power_strike low_env 0 3 silenced_world) \<and>
   heap (snd (power_strike low_env 0 3 silenced_world)) = heap silenced_world \<and>
   is_silenced (heap silenced_world ! 1) \<and>
   \<not> fst (fireball 1 3 silenced_world) \<and>
   is_silenced (heap silenced_world ! 2) \<and>
   \<not> fst (mass_heal 2 [0, 1, 2] silenced_world)"
  using C1_blocked_skill_fails [of silenced_world 0 low_env 3 "[0, 1, 2]"]
    C1_blocked_skill_fails [of silenced_world 1 low_env 3 "[0, 1, 2]"]
    C1_blocked_skill_fails [of silenced_world 2 low_env 3 "[0, 1, 2]"]
    silenced_world_heap
  by simp



lemma heal_allies_length [simp]: "length (heap (heal_allies amt as w)) = length (heap w)"
  by (induction as arbitrary: w) auto

lemma heal_allies_heap:
  "distinct as \<Longrightarrow> i < length (heap w) \<Longrightarrow>
   heap (heal_allies amt as w) ! i =
     (if i \<in> set as \<and> is_alive (heap w ! i) then fst (heal (heap w ! i) amt) else heap w ! i)"
proof (induction as arbitrary: w)
  case Nil
  then show ?case by simp
next
  case (Cons a as)
  let ?w1 = "if is_alive (heap w ! a) then on a (\<lambda>c. heal c amt) w else w"
  have len: "i < length (heap ?w1)" using Cons.prems by simp
  have step: "heap (heal_allies amt (a # as) w) ! i =
      (if i \<in> set as \<and> is_alive (heap ?w1 ! i)
       then fst (heal (heap ?w1 ! i) amt) else heap ?w1 ! i)"
    using Cons.IH [of ?w1] Cons.prems len by simp
  show ?case
  proof (cases "i = a")
    case True
    then have "i \<notin> set as" using Cons.prems by simp
    with step True Cons.prems show ?thesis by simp
  next
    case False
    then have "heap ?w1 ! i = heap w ! i" by simp
    with step False show ?thesis by simp
  qed
qed

lemma hp_heal: "hp (fst (heal c amt)) = max 0 (min (max_hp c) (hp c + amt))"
  by (simp add: heal_def Let_def)

text \<open>
  C5, as stated, for the warrior of the sample party (strength 20) when the random
  generator returns 0, below the crit chance 0.12: the cast succeeds and the boss loses 60
  hp, not strength * 2.0 = 40.
\<close>

theorem C5_power_strike_crit_counterexample:
  "fst (power_strike low_env 0 3 sample_world) \<and>
   strength (heap sample_world ! 0) * 2.0 = 40 \<and>
   hp (heap sample_world ! 3) = 600 \<and>
   hp (heap (snd (power_strike low_env 0 3 sample_world)) ! 3) = 540"
  by (simp add: power_strike_def Let_def spend_mp_def roll_crit_eq set_cooldown_def
      sample_world_def low_env_def Warrior_init_def Boss_init_def init_stats init_fields
      is_silenced_def cooldown_of_def take_damage_def)

lemma power_strike_ok:
  assumes "\<not> is_silenced (heap w ! self)" "cooldown_of (heap w ! self) ''power_strike'' \<le> 0"
    "8 \<le> mp (heap w ! self)" "self < length (heap w)"
  shows "fst (power_strike en self target w)"
    "heap (snd (power_strike en self target w)) =
      (let me = heap w ! self;
           h1 = (heap w)[self := set_cooldown ''power_strike'' 2 (set_mp (mp me - 8) me)];
           dmg = (if rand_real en (draws w) < crit_chance me
                  then strength me * 2.0 * crit_multiplier me else strength me * 2.0)
       in h1[target := fst (take_damage (h1 ! target) dmg (Some self))])"
  using assms
  by (auto simp: power_strike_def Let_def spend_mp_def roll_crit_eq set_cooldown_def)

lemma effects_take_damage [simp]: "effects (fst (take_damage c amt src)) = effects c"
  by (simp add: take_damage_def Let_def split: prod.splits)

lemma effects_apply_effect [simp]: "effects (fst (apply_effect c e)) = effects c @ [e]"
  by (cases e) (simp_all add: apply_effect_def Let_def)

lemma fireball_ok:
  assumes "\<not> is_silenced (heap w ! self)" "cooldown_of (heap w ! self) ''fireball'' \<le> 0"
    "20 \<le> mp (heap w ! self)" "self < length (heap w)" "target < length (heap w)"
  shows "fst (fireball self target w)"
    "heap (snd (fireball self target w)) =
      (let me = heap w ! self;
           h1 = (heap w)[self := set_cooldown ''fireball'' 3 (set_mp (mp me - 20) me)];
           dmg = intelligence me * 3.0;
           hit = fst (take_damage (h1 ! target) dmg (Some self))
       in h1[target := fst (apply_effect hit (DotEffect self (dmg * 0.25) 2))])"
  using assms
  by (auto simp: fireball_def Let_def spend_mp_def set_cooldown_def)

lemma mass_heal_ok:
  assumes "\<not> is_silenced (heap w ! self)" "cooldown_of (heap w ! self) ''mass_heal'' \<le> 0"
    "25 \<le> mp (heap w ! self)" "self < length (heap w)"
  shows "fst (mass_heal self allies w)"
    "snd (mass_heal self allies w) =
      (let me = heap w ! self;
           h1 = (heap w)[self := set_cooldown ''mass_heal'' 3 (set_mp (mp me - 25) me)]
       in heal_allies (intelligence me * 2.0) allies (w\<lparr>heap := h1\<rparr>))"
  using assms
  by (auto simp: mass_heal_def Let_def spend_mp_def set_cooldown_def)

text \<open>
  C5, amended: on a successful cast, \<open>power_strike\<close> calls \<open>take_damage\<close> on the
  target with strength * 2.0, multiplied by the crit multiplier when the crit roll
  (\<open>random() < crit_chance\<close>) succeeds; \<open>fireball\<close> deals exactly intelligence * 3.0
  and then attaches a DotEffect of 25% of that damage with duration 2; \<open>mass_heal\<close>
  calls \<open>heal\<close> with exactly intelligence * 2.0 on each living ally (the allies being
  distinct objects) and changes no other character. The caster pays the cost and the
  cooldown is set before the amounts are read.
\<close>

theorem C5_signature_skill_amounts:
  assumes "self < length (heap w)" and "target < length (heap w)"
  shows
   "(\<not> is_silenced (heap w ! self) \<and> cooldown_of (heap w ! self) ''power_strike'' \<le> 0
       \<and> 8 \<le> mp (heap w ! self) \<longrightarrow>
     (let me = heap w ! self;
          h1 = (heap w)[self := set_cooldown ''power_strike'' 2 (set_mp (mp me - 8) me)];
          dmg = (if rand_real en (draws w) < crit_chance me
                 then strength me * 2.0 * crit_multiplier me else strength me * 2.0)
      in fst (power_strike en self target w) \<and>
         heap (snd (power_strike en self target w)) =
           h1[target := fst (take_damage (h1 ! target) dmg (Some self))])) \<and>
    (\<not> is_silenced (heap w ! self) \<and> cooldown_of (heap w ! self) ''fireball'' \<le> 0
       \<and> 20 \<le> mp (heap w ! self) \<longrightarrow>
     (let me = heap w ! self;
          h1 = (heap w)[self := set_cooldown ''fireball'' 3 (set_mp (mp me - 20) me)];
          dmg = intelligence me * 3.0;
          hit = fst (take_damage (h1 ! target) dmg (Some self))
      in fst (fireball self target w) \<and>
         heap (snd (fireball self target w)) =
           h1[target := fst (apply_effect hit (DotEffect self (dmg * 0.25) 2))] \<and>
         effects (heap (snd (fireball self target w)) ! target) =
           effects (h1 ! target) @ [DotEffect self (intelligence me * 3.0 * 0.25) 2])) \<and>
    (\<not> is_silenced (heap w ! self) \<and> cooldown_of (heap w ! self) ''mass_heal'' \<le> 0
       \<and> 25 \<le> mp (heap w ! self) \<and> distinct allies \<longrightarrow>
     (let me = heap w ! self;
          h1 = (heap w)[self := set_cooldown ''mass_heal'' 3 (set_mp (mp me - 25) me)];
          amt = intelligence me * 2.0
      in fst (mass_heal self allies w) \<and>
         (\<forall>i < length (heap w).
            heap (snd (mass_heal self allies w)) ! i =
              (if i \<in> set allies \<and> is_alive (h1 ! i) then fst (heal (h1 ! i) amt)
               else h1 ! i))))"
proof -
  let ?me = "heap w ! self"
  have ps: "\<not> is_silenced ?me \<and> cooldown_of ?me ''power_strike'' \<le> 0 \<and> 8 \<le> mp ?me \<longrightarrow>
     (let me = heap w ! self;
          h1 = (heap w)[self := set_cooldown ''power_strike'' 2 (set_mp (mp me - 8) me)];
          dmg = (if rand_real en (draws w) < crit_chance me
                 then strength me * 2.0 * crit_multiplier me else strength me * 2.0)
      in fst (power_strike en self target w) \<and>
         heap (snd (power_strike en self target w)) =
           h1[target := fst (take_damage (h1 ! target) dmg (Some self))])"
    using power_strike_ok [of w self en target] assms by (simp add: Let_def)
  have fb: "\<not> is_silenced ?me \<and> cooldown_of ?me ''fireball'' \<le> 0 \<and> 20 \<le> mp ?me \<longrightarrow>
     (let me = heap w ! self;
          h1 = (heap w)[self := set_cooldown ''fireball'' 3 (set_mp (mp me - 20) me)];
          dmg = intelligence me * 3.0;
          hit = fst (take_damage (h1 ! target) dmg (Some self))
      in fst (fireball self target w) \<and>
         heap (snd (fireball self target w)) =
           h1[target := fst (apply_effect hit (DotEffect self (dmg * 0.25) 2))] \<and>
         effects (heap (snd (fireball self target w)) ! target) =
           effects (h1 ! target) @ [DotEffect self (intelligence me * 3.0 * 0.25) 2])"
    using fireball_ok [of w self target] assms by (simp add: Let_def)
  have mh: "\<not> is_silenced ?me \<and> cooldown_of ?me ''mass_heal'' \<le> 0 \<and> 25 \<le> mp ?me
       \<and> distinct allies \<longrightarrow>
     (let me = heap w ! self;
          h1 = (heap w)[self := set_cooldown ''mass_heal'' 3 (set_mp (mp me - 25) me)];
          amt = intelligence me * 2.0
      in fst (mass_heal self allies w) \<and>
         (\<forall>i < length (heap w).
            heap (snd (mass_heal self allies w)) ! i =
              (if i \<in> set allies \<and> is_alive (h1 ! i) then fst (heal (h1 ! i) amt)
               else h1 ! i)))"
    using mass_heal_ok [of w self allies] assms by (simp add: Let_def heal_allies_heap)
  from ps fb mh show ?thesis by blast
qed

lemma sample_heap_nth:
  "heap sample_world ! 0 = Warrior_init ''w''" "heap sample_world ! Suc 0 = Mage_init ''m''"
  "heap sample_world ! 2 = Healer_init ''h''" "heap sample_world ! 3 = Boss_init ''b''"
  "length (heap sample_world) = 4" "draws sample_world = 0"
  by (simp_all add: sample_world_def)

lemma sample_mage:
  "\<not> is_silenced (Mage_init ''m'')" "cooldown_of (Mage_init ''m'') ''fireball'' = 0"
  "mp (Mage_init ''m'') = 140" "intelligence (Mage_init ''m'') = 22"
  by (simp_all add: Mage_init_def is_silenced_def cooldown_of_def init_stats init_fields)

lemma sample_boss:
  "hp (Boss_init ''b'') = 600" "shield (Boss_init ''b'') = 0" "effects (Boss_init ''b'') = []"
  by (simp_all add: Boss_init_def init_stats init_fields)

lemma sample_warrior:
  "\<not> is_silenced (Warrior_init ''w'')" "cooldown_of (Warrior_init ''w'') ''power_strike'' = 0"
  "mp (Warrior_init ''w'') = 30" "strength (Warrior_init ''w'') = 20"
  "crit_chance (Warrior_init ''w'') = 0.12" "hp (Warrior_init ''w'') = 150"
  "max_hp (Warrior_init ''w'') = 150"
  by (simp_all add: Warrior_init_def is_silenced_def cooldown_of_def init_stats init_fields)

lemma sample_healer:
  "\<not> is_silenced (Healer_init ''h'')" "cooldown_of (Healer_init ''h'') ''mass_heal'' = 0"
  "mp (Healer_init ''h'') = 130" "intelligence (Healer_init ''h'') = 20"
  by (simp_all add: Healer_init_def is_silenced_def cooldown_of_def init_stats init_fields)

theorem C5_signature_skill_witness:
  "fst (fireball 1 3 sample_world) \<and>
   mp (heap (snd (fireball 1 3 sample_world)) ! 1) = 120 \<and>
   cooldown_of (heap (snd (fireball 1 3 sample_world)) ! 1) ''fireball'' = 3 \<and>
   hp (heap (snd (fireball 1 3 sample_world)) ! 3) = 534 \<and>
   effects (heap (snd (fireball 1 3 sample_world)) ! 3) = [DotEffect 1 16.5 2] \<and>
   fst (power_strike high_env 0 3 sample_world) \<and>
   hp (heap (snd (power_strike high_env 0 3 sample_world)) ! 3) = 560 \<and>
   fst (mass_heal 2 [0, 1, 2] sample_world) \<and>
   hp (heap (snd (mass_heal 2 [0, 1, 2] sample_world)) ! 0) = 150"
proof -
  have "fst (fireball 1 3 sample_world) \<and>
     heap (snd (fireball 1 3 sample_world)) =
       (heap sample_world)[1 := set_cooldown ''fireball'' 3 (set_mp 120 (Mage_init ''m'')),
          3 := fst (apply_effect (fst (take_damage (Boss_init ''b'') 66 (Some 1)))
                 (DotEffect 1 16.5 2))]"
    using C5_signature_skill_amounts [of 1 sample_world 3 low_env "[]"]
    by (simp add: Let_def sample_heap_nth sample_mage)
  moreover have "hp (fst (take_damage (Boss_init ''b'') 66 (Some 1))) = 534"
    by (simp add: take_damage_def sample_boss)
  moreover have "hp (fst (apply_effect c (DotEffect 1 16.5 2))) = hp c" for c
    by (simp add: apply_effect_def)
  ultimately have fb: "fst (fireball 1 3 sample_world) \<and>
     mp (heap (snd (fireball 1 3 sample_world)) ! 1) = 120 \<and>
     cooldown_of (heap (snd (fireball 1 3 sample_world)) ! 1) ''fireball'' = 3 \<and>
     hp (heap (snd (fireball 1 3 sample_world)) ! 3) = 534 \<and>
     effects (heap (snd (fireball 1 3 sample_world)) ! 3) = [DotEffect 1 16.5 2]"
    by (simp add: sample_heap_nth sample_boss set_cooldown_def cooldown_of_def)
  have "fst (power_strike high_env 0 3 sample_world) \<and>
     heap (snd (power_strike high_env 0 3 sample_world)) =
       (heap sample_world)[0 := set_cooldown ''power_strike'' 2 (set_mp 22 (Warrior_init ''w'')),
          3 := fst (take_damage (Boss_init ''b'') 40 (Some 0))]"
    using C5_signature_skill_amounts [of 0 sample_world 3 high_env "[]"]
    by (simp add: Let_def sample_heap_nth sample_warrior high_env_def)
  moreover have "hp (fst (take_damage (Boss_init ''b'') 40 (Some 0))) = 560"
    by (simp add: take_damage_def sample_boss)
  ultimately have ps: "fst (power_strike high_env 0 3 sample_world) \<and>
     hp (heap (snd (power_strike high_env 0 3 sample_world)) ! 3) = 560"
    by (simp add: sample_heap_nth)
  have "fst (mass_heal 2 [0, 1, 2] sample_world) \<and>
     heap (snd (mass_heal 2 [0, 1, 2] sample_world)) ! 0 = fst (heal (Warrior_init ''w'') 40)"
    using C5_signature_skill_amounts [of 2 sample_world 3 low_env "[0, 1, 2]"]
    by (simp add: Let_def sample_heap_nth sample_healer sample_warrior is_alive_def)
  then have mh: "fst (mass_heal 2 [0, 1, 2] sample_world) \<and>
     hp (heap (snd (mass_heal 2 [0, 1, 2] sample_world)) ! 0) = 150"
    by (simp add: hp_heal sample_warrior)
  from fb ps mh show ?thesis by blast
qed


section \<open>Turn order\<close>


lemma randbelow_eq:
  "randbelow en n w = (rand_nat en (draws w) mod n, w\<lparr>draws := Suc (draws w)\<rparr>)"
  by (simp add: randbelow_def)

lemma shuffle_loop_heap [simp]: "heap (snd (shuffle_loop en i xs w)) = heap w"
  by (induction i arbitrary: xs w) (simp_all add: randbelow_eq)

lemma shuffle_loop_mset:
  "i < length xs \<Longrightarrow> mset (fst (shuffle_loop en i xs w)) = mset xs"
proof (induction i arbitrary: xs w)
  case 0
  then show ?case by simp
next
  case (Suc i)
  let ?j = "rand_nat en (draws w) mod (Suc i + 1)"
  let ?ys = "xs[Suc i := xs ! ?j, ?j := xs ! Suc i]"
  have "?j < Suc i + 1" by (rule mod_less_divisor) simp
  then have j: "?j < length xs" using Suc.prems by linarith
  have "mset ?ys = mset xs" using Suc.prems j by (simp add: mset_swap)
  moreover have "i < length ?ys" using Suc.prems by simp
  ultimately show ?case using Suc.IH [of ?ys] by (simp add: randbelow_eq)
qed

lemma random_shuffle_mset: "mset (fst (random_shuffle en xs w)) = mset xs"
  by (cases xs) (simp_all add: random_shuffle_def shuffle_loop_mset)

lemma random_shuffle_heap [simp]: "heap (snd (random_shuffle en xs w)) = heap w"
  by (simp add: random_shuffle_def)

lemma mset_insert_desc: "mset (insert_desc key x xs) = add_mset x (mset xs)"
  by (induction xs) auto

lemma mset_sort_desc: "mset (sort_desc key xs) = mset xs"
  by (induction xs) (simp_all add: sort_desc_def mset_insert_desc)

lemma set_insert_desc: "set (insert_desc key x xs) = insert x (set xs)"
  by (induction xs) auto

lemma sorted_insert_desc:
  "sorted_wrt (\<lambda>a b. key a \<ge> key b) xs \<Longrightarrow> sorted_wrt (\<lambda>a b. key a \<ge> key b) (insert_desc key x xs)"
  by (induction xs) (auto simp: set_insert_desc)

lemma sorted_sort_desc: "sorted_wrt (\<lambda>a b. key a \<ge> key b) (sort_desc key xs)"
  by (induction xs) (simp_all add: sort_desc_def sorted_insert_desc)

lemma iterate_Nil [simp]: "iterate h [] = []"
  by (simp add: iterate.simps [of h "[]"])

lemma iterate_Cons [simp]:
  "iterate h (c # rest) = (if is_alive (h ! c) then c # iterate h rest else iterate h rest)"
  by (simp add: iterate.simps [of h "c # rest"] iterate.simps [of h rest])

lemma iterate_filter: "iterate h order = filter (\<lambda>c. is_alive (h ! c)) order"
  by (induction order) simp_all

text \<open>
  C6: a round of TurnOrder built from the combatants and iterated while the heap stays as
  it is yields exactly the living combatants, each as often as it is listed (once when the
  combatants are distinct), in an order where agility never increases, and never a dead
  one. Building the round draws random numbers and changes no character.
\<close>

theorem C6_turn_order_round:
  "(case prepare_round en combs w of
      (order, w') \<Rightarrow>
        heap w' = heap w \<and>
        mset (iterate (heap w') order) = mset (filter (\<lambda>c. is_alive (heap w ! c)) combs) \<and>
        sorted_wrt (\<lambda>a b. agility (heap w ! a) \<ge> agility (heap w ! b)) (iterate (heap w') order) \<and>
        (\<forall>c \<in> set (iterate (heap w') order). is_alive (heap w ! c)) \<and>
        (distinct combs \<longrightarrow> distinct (iterate (heap w') order)))"
proof -
  let ?living = "living_of (heap w) combs"
  obtain shuffled w1 where sh: "random_shuffle en ?living w = (shuffled, w1)"
    by (cases "random_shuffle en ?living w") auto
  have h1: "heap w1 = heap w" using random_shuffle_heap [of en ?living w] sh by simp
  have m1: "mset shuffled = mset ?living" using random_shuffle_mset [of en ?living w] sh by simp
  let ?order = "sort_desc (\<lambda>x. agility (heap w ! x)) shuffled"
  have pr: "prepare_round en combs w = (?order, w1)"
    by (simp add: prepare_round_def Let_def sh h1)
  have m2: "mset ?order = mset ?living" by (simp add: mset_sort_desc m1)
  then have s2: "set ?order = set ?living" by (rule mset_eq_setD)
  have alive: "\<forall>c \<in> set ?order. is_alive (heap w ! c)"
    by (simp add: s2 living_of_def)
  then have it: "iterate (heap w) ?order = ?order"
    by (simp add: iterate_filter)
  have d: "distinct combs \<longrightarrow> distinct ?order"
    using m2 by (metis distinct_filter living_of_def mset_eq_imp_distinct_iff)
  show ?thesis
    using m2 alive d sorted_sort_desc [of "\<lambda>x. agility (heap w ! x)" shuffled]
    by (simp add: pr h1 it living_of_def)
qed


lemma sample_order: "fst (prepare_round low_env [0, 1, 2, 3] sample_world) = [0, 1, 2, 3]"
  by code_simp

theorem C6_turn_order_witness:
  "distinct [0, 1, 2, 3 :: nat] \<and>
   fst (prepare_round low_env [0, 1, 2, 3] sample_world) = [0, 1, 2, 3] \<and>
   distinct (iterate (heap (snd (prepare_round low_env [0, 1, 2, 3] sample_world)))
     (fst (prepare_round low_env [0, 1, 2, 3] sample_world)))"
proof -
  obtain order w' where pr: "prepare_round low_env [0, 1, 2, 3] sample_world = (order, w')"
    by (cases "prepare_round low_env [0, 1, 2, 3] sample_world") auto
  have d: "distinct [0, 1, 2, 3 :: nat]" by simp
  have "distinct [0, 1, 2, 3 :: nat] \<longrightarrow> distinct (iterate (heap w') order)"
    using C6_turn_order_round [where en = low_env and combs = "[0, 1, 2, 3]" and w = sample_world]
    unfolding pr prod.case by (elim conjE)
  then have "distinct (iterate (heap w') order)" using d by (rule mp)
  moreover have "order = [0, 1, 2, 3]" using sample_order unfolding pr fst_conv .
  ultimately show ?thesis using d unfolding pr fst_conv snd_conv by (intro conjI)
qed


section \<open>Retaliation\<close>


lemma broadcast_simps [simp]:
  "fst (broadcast b m w) = record_msg m b"
  "heap (snd (broadcast b m w)) = heap w"
  "draws (snd (broadcast b m w)) = draws w"
  "reads (snd (broadcast b m w)) = reads w"
  "log_file (snd (broadcast b m w)) = log_file w"
  "stdout (snd (broadcast b m w)) = stdout w @ (if verbose b then [Say m] else [])"
  by (simp_all add: broadcast_def)

lemma dump_simps [simp]:
  "heap (dump b w) = heap w" "stdout (dump b w) = stdout w" "draws (dump b w) = draws w"
  "reads (dump b w) = reads w" "log_file (dump b w) = Some (logger b)"
  by (simp_all add: dump_def)

lemma smashes_print: "smashes (print ls w) = smashes w + length (filter is_smash ls)"
  by (simp add: smashes_def)

lemma no_smash_take_damage [simp]:
  "filter is_smash (map Log (snd (take_damage c amt src))) = []"
  by (simp add: take_damage_def Let_def split: prod.splits)

lemma smashes_smash [simp]: "smashes (smash self target w) = Suc (smashes w)"
  by (simp add: smash_def Let_def smashes_def)

lemma heap_smash:
  "heap (smash self target w) =
     (heap w)[target := fst (take_damage (heap w ! target) (strength (heap w ! self) * 2.2) (Some self))]"
  by (simp add: smash_def Let_def)

lemma smashes_broadcast [simp]: "smashes (snd (broadcast b m w)) = smashes w"
  by (cases m) (simp_all add: smashes_def)

lemma smashes_dump [simp]: "smashes (dump b w) = smashes w"
  by (simp add: smashes_def)

lemma retaliations_record:
  "retaliations (record_msg m b) = retaliations b + (if is_Retaliation m then 1 else 0)"
  by (simp add: retaliations_def)

lemma random_choice_cases:
  "xs \<noteq> [] \<Longrightarrow> \<exists>t w1. random_choice en xs w = (Inr t, w1) \<and> t \<in> set xs \<and> heap w1 = heap w
      \<and> stdout w1 = stdout w"
  by (simp add: random_choice_def randbelow_def)

lemma input_simps [simp]:
  "heap (snd (input en p w)) = heap w"
  by (simp add: input_def)

lemma hero_menu_exit_heap:
  "fst (hero_menu_action en b hero w) \<Longrightarrow> heap (snd (hero_menu_action en b hero w)) = heap w"
  by (auto simp: hero_menu_action_def Let_def case_prod_beta input_def
      split: if_splits option.splits)

lemma living_nonempty: "any_alive h xs \<Longrightarrow> living_of h xs \<noteq> []"
  by (auto simp: any_alive_def living_of_def list_ex_iff filter_empty_conv)

lemma living_of_set: "t \<in> set (living_of h xs) \<Longrightarrow> t \<in> set xs \<and> is_alive (h ! t)"
  by (simp add: living_of_def)

lemma hero_turn_retaliation:
  assumes m: "hero_menu_action en b hero w = (ex, w1)"
    and t: "hero_turn en b hero w = (s, b', w')"
  defines "cond \<equiv> hp (heap w ! boss b) > hp (heap w1 ! boss b) \<and> is_alive (heap w1 ! boss b)
      \<and> any_alive (heap w1) (party b)"
  shows "retaliations b' = retaliations b + (if cond then 1 else 0) \<and>
     smashes w' = smashes w1 + (if cond then 1 else 0) \<and>
     (if cond then \<exists>target \<in> set (party b). is_alive (heap w1 ! target) \<and>
          heap w' = (heap w1)[target := fst (take_damage (heap w1 ! target)
                        (strength (heap w1 ! boss b) * 2.2) (Some (boss b)))]
      else heap w' = heap w1)"
proof (cases ex)
  case True
  then have "heap w1 = heap w" using hero_menu_exit_heap [of en b hero w] m by simp
  then have "\<not> cond" by (simp add: cond_def)
  with True m t show ?thesis
    by (auto simp: hero_turn_def Let_def case_prod_beta retaliations_record)
next
  case False
  show ?thesis
  proof (cases cond)
    case c: False
    with False m t show ?thesis
      by (auto simp: hero_turn_def Let_def case_prod_beta cond_def split: if_splits)
  next
    case c: True
    then have "living_of (heap w1) (party b) \<noteq> []" by (simp add: cond_def living_nonempty)
    then obtain target w2 where
      rc: "random_choice en (living_of (heap w1) (party b)) w1 = (Inr target, w2)"
      and tg: "target \<in> set (living_of (heap w1) (party b))"
      and h2: "heap w2 = heap w1" and o2: "stdout w2 = stdout w1"
      using random_choice_cases by blast
    have sm: "smashes w2 = smashes w1" using o2 by (simp add: smashes_def)
    from False m t c rc have
      "b' = record_msg (Retaliation (name (heap w2 ! boss b)) (name (heap w2 ! target))) b"
      "w' = smash (boss b) target
              (snd (broadcast b (Retaliation (name (heap w2 ! boss b)) (name (heap w2 ! target))) w2))"
      by (auto simp: hero_turn_def Let_def case_prod_beta cond_def split: if_splits)
    with c tg h2 sm show ?thesis
      using living_of_set [OF tg]
      by (auto simp: retaliations_record heap_smash)
  qed
qed

lemma take_damage_static [simp]:
  "kind (fst (take_damage c amt src)) = kind c" "name (fst (take_damage c amt src)) = name c"
  "max_hp (fst (take_damage c amt src)) = max_hp c" "max_mp (fst (take_damage c amt src)) = max_mp c"
  "mp (fst (take_damage c amt src)) = mp c"
  by (simp_all add: take_damage_def Let_def)

lemma heal_static [simp]:
  "kind (fst (heal c amt)) = kind c" "name (fst (heal c amt)) = name c"
  "max_hp (fst (heal c amt)) = max_hp c" "max_mp (fst (heal c amt)) = max_mp c"
  "mp (fst (heal c amt)) = mp c" "effects (fst (heal c amt)) = effects c"
  by (simp_all add: heal_def Let_def)

lemma on_turn_static [simp]:
  "kind (fst (snd (on_turn e c))) = kind c" "name (fst (snd (on_turn e c))) = name c"
  "max_hp (fst (snd (on_turn e c))) = max_hp c" "max_mp (fst (snd (on_turn e c))) = max_mp c"
  "mp (fst (snd (on_turn e c))) = mp c" "effects (fst (snd (on_turn e c))) = effects c"
  by (cases e; simp add: case_prod_beta)+

lemma on_turn_loop_static [simp]:
  "kind (fst (snd (on_turn_loop es c))) = kind c" "name (fst (snd (on_turn_loop es c))) = name c"
  "max_hp (fst (snd (on_turn_loop es c))) = max_hp c"
  "max_mp (fst (snd (on_turn_loop es c))) = max_mp c"
  "mp (fst (snd (on_turn_loop es c))) = mp c"
  by (induction es arbitrary: c; simp add: case_prod_beta)+

lemma expire_static [simp]:
  "kind (expire e c) = kind c" "name (expire e c) = name c"
  "max_hp (expire e c) = max_hp c" "max_mp (expire e c) = max_mp c"
  "mp (expire e c) = mp c" "hp (expire e c) = hp c" "effects (expire e c) = effects c"
  by (cases e; simp)+

lemma remove_expired_loop_static [simp]:
  "kind (fst (snd (remove_expired_loop es still c out))) = kind c"
  "name (fst (snd (remove_expired_loop es still c out))) = name c"
  "max_hp (fst (snd (remove_expired_loop es still c out))) = max_hp c"
  "max_mp (fst (snd (remove_expired_loop es still c out))) = max_mp c"
  "mp (fst (snd (remove_expired_loop es still c out))) = mp c"
  "hp (fst (snd (remove_expired_loop es still c out))) = hp c"
  by (induction es arbitrary: still c out; simp)+

lemma start_turn_effects_static [simp]:
  "kind (fst (start_turn_effects c)) = kind c" "name (fst (start_turn_effects c)) = name c"
  "max_hp (fst (start_turn_effects c)) = max_hp c"
  "max_mp (fst (start_turn_effects c)) = max_mp c"
  "mp (fst (start_turn_effects c)) = mp c"
  by (simp_all add: start_turn_effects_def remove_expired_effects_def case_prod_beta Let_def)

lemma kind_on_start_turn:
  "kind (heap (on actor start_turn_effects w) ! actor) = kind (heap w ! actor)"
  by (cases "actor < length (heap w)") (simp_all add: list_update_beyond)

lemma boss_turn_logger:
  "kind (heap w ! actor) = Boss \<Longrightarrow> fst (snd (actor_turn en b actor w)) = b"
  by (simp add: actor_turn_def Let_def kind_on_start_turn del: on_simps)


text \<open>
  C8: in the turn of a hero (lines 611 to 629), with w1 the world after the hero's action:
  the battle logger gains exactly one retaliation record and the output exactly one
  smash when the boss's hp is lower than before the action, the boss is alive and some
  hero is alive, and the smash then hits a living member of the party with
  strength * 2.2; otherwise it gains none and the characters stay as the action left
  them. The turn of a Boss actor, start-of-turn effects included, leaves the battle object
  and so its logger unchanged: no retaliation is recorded there.
\<close>

theorem C8_retaliation_iff_boss_damaged:
  "(let w1 = snd (hero_menu_action en b hero w);
        b' = fst (snd (hero_turn en b hero w));
        w' = snd (snd (hero_turn en b hero w));
        damaged = (hp (heap w ! boss b) > hp (heap w1 ! boss b) \<and> is_alive (heap w1 ! boss b)
                   \<and> any_alive (heap w1) (party b))
    in retaliations b' = retaliations b + (if damaged then 1 else 0) \<and>
       smashes w' = smashes w1 + (if damaged then 1 else 0) \<and>
       (if damaged
        then \<exists>target \<in> set (party b). is_alive (heap w1 ! target) \<and>
               heap w' = (heap w1)[target := fst (take_damage (heap w1 ! target)
                            (strength (heap w1 ! boss b) * 2.2) (Some (boss b)))]
        else heap w' = heap w1)) \<and>
   (kind (heap w ! actor) = Boss \<longrightarrow> fst (snd (actor_turn en b actor w)) = b)"
proof -
  obtain ex w1 where m: "hero_menu_action en b hero w = (ex, w1)"
    by (cases "hero_menu_action en b hero w") auto
  obtain s b' w' where t: "hero_turn en b hero w = (s, b', w')"
    by (cases "hero_turn en b hero w") auto
  show ?thesis
    unfolding Let_def m t fst_conv snd_conv
    using hero_turn_retaliation [OF m t] boss_turn_logger [of w actor en b]
    by blast
qed

lemma sample_attack:
  "hp (heap (snd (hero_menu_action low_env sample_battle 0 sample_world)) ! 3) = 573"
  "is_alive (heap (snd (hero_menu_action low_env sample_battle 0 sample_world)) ! 3)"
  "any_alive (heap (snd (hero_menu_action low_env sample_battle 0 sample_world)))
     (party sample_battle)"
  by code_simp+

theorem C8_retaliation_witness:
  "hp (heap sample_world ! boss sample_battle)
     > hp (heap (snd (hero_menu_action low_env sample_battle 0 sample_world)) ! boss sample_battle) \<and>
   retaliations (fst (snd (hero_turn low_env sample_battle 0 sample_world))) = 1 \<and>
   kind (heap sample_world ! 3) = Boss \<and>
   fst (snd (actor_turn low_env sample_battle 3 sample_world)) = sample_battle"
proof -
  have b: "boss sample_battle = 3" "retaliations sample_battle = 0"
    by (simp_all add: sample_battle_def Battle_init_def retaliations_def)
  have k: "kind (heap sample_world ! 3) = Boss" "hp (heap sample_world ! 3) = 600"
    by (simp_all add: sample_heap_nth Boss_init_def init_fields init_stats)
  show ?thesis
    using C8_retaliation_iff_boss_damaged
      [where en = low_env and b = sample_battle and hero = 0 and w = sample_world and actor = 3]
    by (simp add: Let_def b k sample_attack)
qed


section \<open>Invariants kept by the battle\<close>


lemma stableD:
  assumes "stable P" "P c"
  shows "P (fst (take_damage c amt src))" "P (fst (heal c amt))" "P (fst (restore_mp c amt))"
    "0 \<le> amt \<Longrightarrow> P (snd (spend_mp c amt))" "P (set_cooldown k n c)"
    "P (fst (apply_effect c (DotEffect s d 2)))" "P (fst (apply_effect c (ShieldEffect s a 2)))"
    "P (fst (apply_effect c (SilenceEffect s 1)))" "P (fst (start_turn_effects c))"
    "P (fst (tick_one c))" "P (c\<lparr>inventory := its\<rparr>)"
  using assms unfolding stable_def by simp_all

lemma list_all_upd:
  "list_all P xs \<Longrightarrow> (i < length xs \<Longrightarrow> P (xs ! i) \<Longrightarrow> P c) \<Longrightarrow> list_all P (xs[i := c])"
  by (cases "i < length xs") (auto simp: list_all_length nth_list_update list_update_beyond)

lemma keeps_refl [simp]: "keeps P w w"
  by (simp add: keeps_def)

lemma keeps_trans: "keeps P w w1 \<Longrightarrow> keeps P w1 w2 \<Longrightarrow> keeps P w w2"
  by (simp add: keeps_def)

lemma keeps_heap_eq: "heap w' = heap w \<Longrightarrow> keeps P w w'"
  by (simp add: keeps_def)

lemma keeps_on: "(\<And>c. P c \<Longrightarrow> P (fst (f c))) \<Longrightarrow> keeps P w (on i f w)"
  by (simp add: keeps_def list_all_upd)

lemma keeps_upd: "(P (heap w ! i) \<Longrightarrow> P c) \<Longrightarrow> keeps P w (w\<lparr>heap := (heap w)[i := c]\<rparr>)"
  by (simp add: keeps_def list_all_upd)

lemma stable_spend:
  assumes "stable P" "P c" "0 \<le> amt" "amt \<le> mp c"
  shows "P (set_mp (mp c - amt) c)"
  using stableD(4) [OF assms(1,2,3)] assms(4) by (simp add: spend_mp_def)

lemma keeps_onI:
  "keeps P w w1 \<Longrightarrow> (\<And>c. P c \<Longrightarrow> P (fst (f c))) \<Longrightarrow> keeps P w (on i f w1)"
  by (rule keeps_trans [OF _ keeps_on])

lemma keeps_print [simp]: "keeps P w (print ls w1) = keeps P w w1"
  by (simp add: keeps_def)

lemma keeps_log_event [simp]: "keeps P w (log_event e w1) = keeps P w w1"
  by (simp add: keeps_def)

lemma keeps_draws [simp]: "keeps P w (w1\<lparr>draws := n\<rparr>) = keeps P w w1"
  by (simp add: keeps_def)

lemma keeps_reads [simp]: "keeps P w (w1\<lparr>reads := n\<rparr>) = keeps P w w1"
  by (simp add: keeps_def)

lemma keeps_log_file [simp]: "keeps P w (w1\<lparr>log_file := f\<rparr>) = keeps P w w1"
  by (simp add: keeps_def)

lemma keeps_stdout [simp]: "keeps P w (w1\<lparr>stdout := out\<rparr>) = keeps P w w1"
  by (simp add: keeps_def)

lemma keeps_updI:
  "keeps P w w1 \<Longrightarrow> (P (heap w1 ! i) \<Longrightarrow> P c) \<Longrightarrow> keeps P w (w1\<lparr>heap := (heap w1)[i := c]\<rparr>)"
  by (rule keeps_trans [OF _ keeps_upd])

lemma keeps_basic_attack:
  assumes st: "stable P"
  shows "keeps P w0 w \<Longrightarrow> keeps P w0 (basic_attack en self target w)"
  by (simp add: basic_attack_def Let_def case_prod_beta roll_crit_eq random_uniform_def
      random_random_def keeps_onI stableD [OF st] del: on_simps)

lemma keeps_power_strike:
  assumes st: "stable P"
  shows "keeps P w0 w \<Longrightarrow> keeps P w0 (snd (power_strike en self target w))"
  by (simp add: power_strike_def Let_def case_prod_beta roll_crit_eq spend_mp_def
      keeps_onI keeps_updI stableD [OF st] stable_spend [OF st] del: on_simps)

lemma keeps_fireball:
  assumes st: "stable P"
  shows "keeps P w0 w \<Longrightarrow> keeps P w0 (snd (fireball self target w))"
  by (simp add: fireball_def Let_def case_prod_beta spend_mp_def
      keeps_onI keeps_updI stableD [OF st] stable_spend [OF st] del: on_simps)

lemma keeps_heal_allies:
  assumes st: "stable P"
  shows "keeps P w0 w \<Longrightarrow> keeps P w0 (heal_allies amt as w)"
  by (induction as arbitrary: w) (simp_all add: keeps_onI stableD [OF st] del: on_simps)

lemma keeps_mass_heal:
  assumes st: "stable P"
  shows "keeps P w0 w \<Longrightarrow> keeps P w0 (snd (mass_heal self allies w))"
  by (simp add: mass_heal_def Let_def case_prod_beta spend_mp_def keeps_heal_allies [OF st]
      keeps_updI stableD [OF st] stable_spend [OF st] del: on_simps)

lemma keeps_use_skill:
  assumes st: "stable P"
  shows "keeps P w0 w \<Longrightarrow> keeps P w0 (use_skill en self target allies w)"
  by (simp add: use_skill_def Warrior_use_skill_def Mage_use_skill_def Healer_use_skill_def
      case_prod_beta keeps_power_strike [OF st] keeps_fireball [OF st] keeps_mass_heal [OF st]
      keeps_basic_attack [OF st] split: klass.splits)

lemma keeps_smash:
  assumes st: "stable P"
  shows "keeps P w0 w \<Longrightarrow> keeps P w0 (smash self target w)"
  by (simp add: smash_def Let_def keeps_onI stableD [OF st] del: on_simps)

lemma keeps_shield_self:
  assumes st: "stable P"
  shows "keeps P w0 w \<Longrightarrow> keeps P w0 (shield_self self w)"
  by (simp add: shield_self_def Let_def keeps_onI stableD [OF st] del: on_simps)

lemma keeps_cast_silence:
  assumes st: "stable P"
  shows "keeps P w0 w \<Longrightarrow> keeps P w0 (cast_silence self target w)"
  by (simp add: cast_silence_def Let_def keeps_onI stableD [OF st] del: on_simps)

lemma keeps_Boss_use_skill:
  assumes st: "stable P"
  shows "keeps P w0 w \<Longrightarrow> keeps P w0 (Boss_use_skill en self enemies allies w)"
  by (simp add: Boss_use_skill_def Let_def case_prod_beta random_random_def randbelow_def
      keeps_smash [OF st] keeps_shield_self [OF st] keeps_cast_silence [OF st]
      split: option.splits bool.splits)


lemma stable_Item_use:
  assumes st: "stable P"
  shows "P c \<Longrightarrow> P (fst (Item_use it c))"
  by (simp add: Item_use_def Let_def case_prod_beta stableD [OF st])

lemma keeps_Inventory_use:
  assumes st: "stable P"
  shows "keeps P w0 w \<Longrightarrow> keeps P w0 (snd (Inventory_use owner nm target w))"
  by (simp add: Inventory_use_def Let_def case_prod_beta keeps_updI keeps_onI
      stable_Item_use [OF st] stableD [OF st] del: on_simps split: option.splits)

lemma keeps_input [simp]: "keeps P w0 (snd (input en p w)) = keeps P w0 w"
  by (simp add: input_def)

lemma keeps_choose_item [simp]:
  "keeps P w0 (snd (choose_item_from_hero en hero w)) = keeps P w0 w"
  by (simp add: choose_item_from_hero_def Let_def case_prod_beta split: option.splits)

lemma keeps_hero_menu_action:
  assumes st: "stable P"
  shows "keeps P w0 w \<Longrightarrow> keeps P w0 (snd (hero_menu_action en b hero w))"
  by (simp add: hero_menu_action_def Let_def case_prod_beta keeps_basic_attack [OF st]
      keeps_use_skill [OF st] keeps_Inventory_use [OF st] split: option.splits)

lemma keeps_broadcast [simp]: "keeps P w0 (snd (broadcast b m w)) = keeps P w0 w"
  by (simp add: broadcast_def)

lemma keeps_dump [simp]: "keeps P w0 (dump b w) = keeps P w0 w"
  by (simp add: dump_def)

lemma keeps_random_choice [simp]: "keeps P w0 (snd (random_choice en xs w)) = keeps P w0 w"
  by (simp add: random_choice_def randbelow_def)

lemma keeps_hero_turn:
  assumes st: "stable P"
  shows "keeps P w0 w \<Longrightarrow> keeps P w0 (snd (snd (hero_turn en b hero w)))"
proof -
  assume k: "keeps P w0 w"
  note k1 = keeps_hero_menu_action [OF st k, of en b hero]
  obtain r w2 where rc: "random_choice en
      (living_of (heap (snd (hero_menu_action en b hero w))) (party b))
      (snd (hero_menu_action en b hero w)) = (r, w2)"
    by (cases "random_choice en
      (living_of (heap (snd (hero_menu_action en b hero w))) (party b))
      (snd (hero_menu_action en b hero w))") auto
  have k2: "keeps P w0 w2"
    using k1 keeps_random_choice [of P w0 en
      "living_of (heap (snd (hero_menu_action en b hero w))) (party b)"
      "snd (hero_menu_action en b hero w)"] rc by simp
  show ?thesis
    using k1 k2
    by (simp add: hero_turn_def Let_def case_prod_beta rc keeps_smash [OF st] split: sum.splits)
qed

lemma keeps_actor_turn:
  assumes st: "stable P"
  shows "keeps P w0 w \<Longrightarrow> keeps P w0 (snd (snd (actor_turn en b actor w)))"
  by (simp add: actor_turn_def Let_def keeps_hero_turn [OF st] keeps_Boss_use_skill [OF st]
      keeps_onI stableD [OF st] del: on_simps)

lemma keeps_turns:
  assumes st: "stable P"
  shows "keeps P w0 w \<Longrightarrow> keeps P w0 (snd (snd (turns en b order w)))"
proof (induction en b order w rule: turns.induct)
  case (1 en b order w)
  show ?case
  proof (cases "TurnOrder_next (heap w) order")
    case (Pair a rest)
    show ?thesis
    proof (cases a)
      case None
      with Pair "1.prems" show ?thesis by (simp add: turns.simps [of en b order w])
    next
      case (Some actor)
      obtain s1 b1 w1 where at: "actor_turn en b actor w = (s1, b1, w1)"
        by (cases "actor_turn en b actor w") auto
      have k1: "keeps P w0 w1"
        using keeps_actor_turn [OF st "1.prems", of en b actor] at by simp
      show ?thesis
      proof (cases s1)
        case Next
        from "1.IH" [OF Pair [symmetric] Some at [symmetric] Next refl k1]
        show ?thesis using Pair Some at Next by (simp add: turns.simps [of en b order w])
      qed (use Pair Some at k1 in \<open>simp_all add: turns.simps [of en b order w]\<close>)
    qed
  qed
qed

lemma keeps_tick_cooldowns:
  assumes st: "stable P"
  shows "keeps P w0 w \<Longrightarrow> keeps P w0 (tick_cooldowns cs w)"
  by (induction cs arbitrary: w) (simp_all add: keeps_onI stableD [OF st] del: on_simps)

lemma shuffle_loop_keeps [simp]: "keeps P w0 (snd (shuffle_loop en i xs w)) = keeps P w0 w"
  by (simp add: keeps_def)

lemma keeps_prepare_round [simp]:
  "keeps P w0 (snd (prepare_round en combs w)) = keeps P w0 w"
  by (simp add: prepare_round_def Let_def case_prod_beta keeps_def)

lemma keeps_round_body:
  assumes st: "stable P"
  shows "keeps P w0 w \<Longrightarrow> keeps P w0 (snd (snd (round_body en b w)))"
  by (simp add: round_body_def Let_def case_prod_beta keeps_turns [OF st]
      keeps_tick_cooldowns [OF st] split: signal.splits)


lemma keeps_finish [simp]: "keeps P w0 (snd (snd (finish b w))) = keeps P w0 w"
  by (simp add: finish_def case_prod_beta)

lemma keeps_run_loop:
  assumes st: "stable P"
  shows "keeps P w0 w \<Longrightarrow> keeps P w0 (snd (snd (run_loop en max_rounds b w)))"
proof (induction en max_rounds b w rule: run_loop.induct)
  case (1 en max_rounds b w)
  show ?case
  proof (cases "round_no b \<le> max_rounds \<and> is_alive (heap w ! boss b)
      \<and> any_alive (heap w) (party b)")
    case False
    have "run_loop en max_rounds b w = finish b w"
      by (subst run_loop.simps, rule if_not_P, rule False)
    with "1.prems" show ?thesis by simp
  next
    case True
    have unfold: "run_loop en max_rounds b w =
        (case round_body en b w of
           (Return r, b1, w1) \<Rightarrow> (Inr r, b1, w1)
         | (Raise e, b1, w1) \<Rightarrow> (Inl e, b1, w1)
         | (Next, b1, w1) \<Rightarrow> run_loop en max_rounds (b1\<lparr>round_no := round_no b1 + 1\<rparr>) w1
         | (Break, b1, w1) \<Rightarrow> run_loop en max_rounds (b1\<lparr>round_no := round_no b1 + 1\<rparr>) w1)"
      by (subst run_loop.simps, rule if_P, rule True)
    obtain s1 b1 w1 where rb: "round_body en b w = (s1, b1, w1)"
      by (cases "round_body en b w") auto
    have k1: "keeps P w0 w1"
      using keeps_round_body [OF st "1.prems", of en b] rb by simp
    show ?thesis
    proof (cases s1)
      case Next
      from "1.IH"(1) [OF True rb [symmetric] Next refl k1]
      show ?thesis using rb Next by (simp add: unfold)
    next
      case Break
      from "1.IH"(2) [OF True rb [symmetric] Break refl k1]
      show ?thesis using rb Break by (simp add: unfold)
    qed (use rb k1 in \<open>simp_all add: unfold\<close>)
  qed
qed

lemma keeps_run:
  assumes st: "stable P"
  shows "keeps P w (snd (snd (run en max_rounds b w)))"
  by (simp add: run_def case_prod_beta keeps_run_loop [OF st])

subsection \<open>The two invariants are stable\<close>

lemma effects_restore_mp [simp]: "effects (fst (restore_mp c amt)) = effects c"
  by (simp add: restore_mp_def Let_def)

lemma effects_spend_mp [simp]: "effects (snd (spend_mp c amt)) = effects c"
  by (simp add: spend_mp_def)

lemma on_turn_fst: "fst (on_turn e c) = set_duration (duration e - 1) e"
  by (cases e) (simp_all add: case_prod_beta)

lemma on_turn_loop_fst: "fst (on_turn_loop es c) = map (\<lambda>e. set_duration (duration e - 1) e) es"
  by (induction es arbitrary: c) (simp_all add: case_prod_beta on_turn_fst)

lemma remove_expired_loop_fst:
  "fst (remove_expired_loop es still c out) = still @ filter (\<lambda>e. \<not> duration e \<le> 0) es"
  by (induction es arbitrary: still c out) simp_all

lemma effects_start_turn_effects:
  "effects (fst (start_turn_effects c)) =
     filter (\<lambda>e. \<not> duration e \<le> 0) (map (\<lambda>e. set_duration (duration e - 1) e) (effects c))"
  by (simp add: start_turn_effects_def remove_expired_effects_def case_prod_beta Let_def
      remove_expired_loop_fst on_turn_loop_fst)

lemma set_duration_simps [simp]:
  "duration (set_duration n e) = n" "is_SilenceEffect (set_duration n e) = is_SilenceEffect e"
  by (cases e; simp)+

lemma start_turn_effects_unsilences:
  "short_silences c \<Longrightarrow> \<not> is_silenced (fst (start_turn_effects c))"
  by (auto simp: short_silences_def is_silenced_def effects_start_turn_effects list_ex_iff
      list_all_iff)

lemma stable_short_silences: "stable short_silences"
  unfolding stable_def
proof (intro allI impI)
  fix c assume c: "short_silences c"
  have "short_silences (fst (start_turn_effects c))"
    using c
    by (auto simp: short_silences_def effects_start_turn_effects list_all_iff)
  with c show "(\<forall>amt src. short_silences (fst (take_damage c amt src))) \<and>
        (\<forall>amt. short_silences (fst (heal c amt))) \<and>
        (\<forall>amt. short_silences (fst (restore_mp c amt))) \<and>
        (\<forall>amt. 0 \<le> amt \<longrightarrow> short_silences (snd (spend_mp c amt))) \<and>
        (\<forall>k n. short_silences (set_cooldown k n c)) \<and>
        (\<forall>s d. short_silences (fst (apply_effect c (DotEffect s d 2)))) \<and>
        (\<forall>s a. short_silences (fst (apply_effect c (ShieldEffect s a 2)))) \<and>
        (\<forall>s. short_silences (fst (apply_effect c (SilenceEffect s 1)))) \<and>
        short_silences (fst (start_turn_effects c)) \<and>
        short_silences (fst (tick_one c)) \<and>
        (\<forall>its. short_silences (c\<lparr>inventory := its\<rparr>))"
    by (simp add: short_silences_def set_cooldown_def tick_one_def)
qed













section \<open>Silence during a battle\<close>


lemma refusals_simps [simp]:
  "refusals_by_silence (print ls w) =
     refusals_by_silence w + length (filter is_refused_by_silence ls)"
  "refusals_by_silence (w\<lparr>draws := n\<rparr>) = refusals_by_silence w"
  "refusals_by_silence (w\<lparr>reads := n\<rparr>) = refusals_by_silence w"
  "refusals_by_silence (w\<lparr>log_file := f\<rparr>) = refusals_by_silence w"
  "refusals_by_silence (w\<lparr>heap := h\<rparr>) = refusals_by_silence w"
  by (simp_all add: refusals_by_silence_def)

lemma refusals_log_event:
  "refusals_by_silence (log_event e w) =
     refusals_by_silence w + (if is_refused_by_silence (Log e) then 1 else 0)"
  by (simp add: log_event_def)

lemma refusals_on:
  "quiet (snd (f (heap w ! i))) \<Longrightarrow> refusals_by_silence (on i f w) = refusals_by_silence w"
  by (simp add: refusals_by_silence_def quiet_def)

lemma quiet_simps [simp]: "quiet []" "quiet (xs @ ys) = (quiet xs \<and> quiet ys)"
  by (simp_all add: quiet_def)

lemma quiet_take_damage [simp]: "quiet (snd (take_damage c amt src))"
  by (simp add: take_damage_def Let_def quiet_def)

lemma quiet_heal [simp]: "quiet (snd (heal c amt))"
  by (simp add: heal_def Let_def quiet_def)

lemma quiet_restore_mp [simp]: "quiet (snd (restore_mp c amt))"
  by (simp add: restore_mp_def Let_def quiet_def)

lemma quiet_apply_effect [simp]: "quiet (snd (apply_effect c e))"
  by (simp add: apply_effect_def Let_def quiet_def)

lemma quiet_tick_one [simp]: "quiet (snd (tick_one c))"
  by (simp add: tick_one_def)

lemma quiet_Item_use [simp]: "quiet (snd (Item_use it c))"
  by (simp add: Item_use_def Let_def case_prod_beta)

lemma quiet_on_turn [simp]: "quiet (snd (snd (on_turn e c)))"
  by (cases e) (simp_all add: case_prod_beta)

lemma quiet_on_turn_loop [simp]: "quiet (snd (snd (on_turn_loop es c)))"
  by (induction es arbitrary: c) (simp_all add: case_prod_beta)

lemma quiet_remove_expired_loop:
  "quiet out \<Longrightarrow> quiet (snd (snd (remove_expired_loop es still c out)))"
  by (induction es arbitrary: still c out) (simp_all add: quiet_def)

lemma quiet_start_turn_effects [simp]: "quiet (snd (start_turn_effects c))"
  by (simp add: start_turn_effects_def remove_expired_effects_def case_prod_beta Let_def
      quiet_remove_expired_loop)

lemma refusals_basic_attack [simp]:
  "refusals_by_silence (basic_attack en self target w) = refusals_by_silence w"
  by (simp add: basic_attack_def Let_def case_prod_beta roll_crit_eq random_uniform_def
      random_random_def refusals_on refusals_log_event del: on_simps)

lemma refusals_heal_allies [simp]:
  "refusals_by_silence (heal_allies amt as w) = refusals_by_silence w"
  by (induction as arbitrary: w) (simp_all add: refusals_on del: on_simps)

lemma refusals_power_strike:
  "\<not> is_silenced (heap w ! self) \<Longrightarrow>
   refusals_by_silence (snd (power_strike en self target w)) = refusals_by_silence w"
  by (simp add: power_strike_def Let_def case_prod_beta roll_crit_eq refusals_on
      refusals_log_event spend_mp_def del: on_simps)

lemma refusals_fireball:
  "\<not> is_silenced (heap w ! self) \<Longrightarrow>
   refusals_by_silence (snd (fireball self target w)) = refusals_by_silence w"
  by (simp add: fireball_def Let_def case_prod_beta refusals_on refusals_log_event
      spend_mp_def del: on_simps)

lemma refusals_mass_heal:
  "\<not> is_silenced (heap w ! self) \<Longrightarrow>
   refusals_by_silence (snd (mass_heal self allies w)) = refusals_by_silence w"
  by (simp add: mass_heal_def Let_def case_prod_beta refusals_log_event spend_mp_def)

lemma refusals_use_skill:
  "\<not> is_silenced (heap w ! self) \<Longrightarrow>
   refusals_by_silence (use_skill en self target allies w) = refusals_by_silence w"
  by (simp add: use_skill_def Warrior_use_skill_def Mage_use_skill_def Healer_use_skill_def
      case_prod_beta refusals_power_strike refusals_fireball refusals_mass_heal
      split: klass.splits)

lemma refusals_smash [simp]: "refusals_by_silence (smash self target w) = refusals_by_silence w"
  by (simp add: smash_def Let_def refusals_on refusals_log_event del: on_simps)

lemma refusals_shield_self [simp]:
  "refusals_by_silence (shield_self self w) = refusals_by_silence w"
  by (simp add: shield_self_def Let_def refusals_on refusals_log_event del: on_simps)

lemma refusals_cast_silence [simp]:
  "refusals_by_silence (cast_silence self target w) = refusals_by_silence w"
  by (simp add: cast_silence_def Let_def refusals_on refusals_log_event del: on_simps)

lemma refusals_Boss_use_skill [simp]:
  "refusals_by_silence (Boss_use_skill en self enemies allies w) = refusals_by_silence w"
  by (simp add: Boss_use_skill_def Let_def case_prod_beta random_random_def randbelow_def
      refusals_log_event split: option.splits bool.splits)

lemma refusals_Inventory_use [simp]:
  "refusals_by_silence (snd (Inventory_use owner nm target w)) = refusals_by_silence w"
  by (simp add: Inventory_use_def Let_def case_prod_beta refusals_on del: on_simps
      split: option.splits)

lemma refusals_input [simp]: "refusals_by_silence (snd (input en p w)) = refusals_by_silence w"
  by (simp add: input_def)

lemma no_refusal_inventory_lines [simp]:
  "filter is_refused_by_silence (inventory_lines i its) = []"
  by (induction i its rule: inventory_lines.induct) simp_all

lemma refusals_choose_item [simp]:
  "refusals_by_silence (snd (choose_item_from_hero en hero w)) = refusals_by_silence w"
  by (simp add: choose_item_from_hero_def Let_def case_prod_beta split: option.splits)

lemma heap_choose_item [simp]: "heap (snd (choose_item_from_hero en hero w)) = heap w"
  by (simp add: choose_item_from_hero_def Let_def case_prod_beta input_def split: option.splits)

lemma refusals_hero_menu_action:
  "\<not> is_silenced (heap w ! hero) \<Longrightarrow>
   refusals_by_silence (snd (hero_menu_action en b hero w)) = refusals_by_silence w"
  by (simp add: hero_menu_action_def Let_def case_prod_beta refusals_use_skill input_def
      split: option.splits)

lemma refusals_broadcast [simp]:
  "refusals_by_silence (snd (broadcast b m w)) = refusals_by_silence w"
  by (simp add: broadcast_def)

lemma refusals_dump [simp]: "refusals_by_silence (dump b w) = refusals_by_silence w"
  by (simp add: dump_def)

lemma refusals_random_choice [simp]:
  "refusals_by_silence (snd (random_choice en xs w)) = refusals_by_silence w"
  by (simp add: random_choice_def randbelow_def)

lemma refusals_hero_turn:
  "\<not> is_silenced (heap w ! hero) \<Longrightarrow>
   refusals_by_silence (snd (snd (hero_turn en b hero w))) = refusals_by_silence w"
proof -
  assume ns: "\<not> is_silenced (heap w ! hero)"
  note r1 = refusals_hero_menu_action [OF ns, of en b]
  obtain r w2 where rc: "random_choice en
      (living_of (heap (snd (hero_menu_action en b hero w))) (party b))
      (snd (hero_menu_action en b hero w)) = (r, w2)"
    by (cases "random_choice en
      (living_of (heap (snd (hero_menu_action en b hero w))) (party b))
      (snd (hero_menu_action en b hero w))") auto
  have r2: "refusals_by_silence w2 = refusals_by_silence w"
    using r1 refusals_random_choice [of en
      "living_of (heap (snd (hero_menu_action en b hero w))) (party b)"
      "snd (hero_menu_action en b hero w)"] rc by simp
  show ?thesis
    using r1 r2 by (simp add: hero_turn_def Let_def case_prod_beta rc split: sum.splits)
qed

lemma refusals_actor_turn:
  assumes "short_silences (heap w ! actor)" "actor < length (heap w)"
  shows "refusals_by_silence (snd (snd (actor_turn en b actor w))) = refusals_by_silence w"
proof -
  let ?w1 = "on actor start_turn_effects w"
  have "heap ?w1 ! actor = fst (start_turn_effects (heap w ! actor))"
    using assms(2) by simp
  then have ns: "\<not> is_silenced (heap ?w1 ! actor)"
    using start_turn_effects_unsilences [OF assms(1)] by simp
  have r1: "refusals_by_silence ?w1 = refusals_by_silence w"
    by (simp add: refusals_on del: on_simps)
  show ?thesis
    using refusals_hero_turn [OF ns, of en b] r1
    by (simp add: actor_turn_def Let_def del: on_simps)
qed


lemma TurnOrder_next_set:
  "TurnOrder_next h order = (Some c, rest) \<Longrightarrow> c \<in> set order \<and> set rest \<subseteq> set order"
  by (induction order) (auto split: if_splits)

lemma hero_turn_combatants:
  "combatants (fst (snd (hero_turn en b hero w))) = combatants b"
  by (simp add: hero_turn_def Let_def case_prod_beta broadcast_def split: sum.splits)

lemma actor_turn_combatants:
  "combatants (fst (snd (actor_turn en b actor w))) = combatants b"
  by (simp add: actor_turn_def Let_def hero_turn_combatants)

lemma turns_combatants: "combatants (fst (snd (turns en b order w))) = combatants b"
proof (induction en b order w rule: turns.induct)
  case (1 en b order w)
  show ?case
  proof (cases "TurnOrder_next (heap w) order")
    case (Pair a rest)
    show ?thesis
    proof (cases a)
      case None
      with Pair show ?thesis by (simp add: turns.simps [of en b order w])
    next
      case (Some actor)
      obtain s1 b1 w1 where at: "actor_turn en b actor w = (s1, b1, w1)"
        by (cases "actor_turn en b actor w") auto
      have c1: "combatants b1 = combatants b"
        using actor_turn_combatants [of en b actor w] at by simp
      show ?thesis
      proof (cases s1)
        case Next
        from "1.IH" [OF Pair [symmetric] Some at [symmetric] Next refl]
        show ?thesis using Pair Some at Next c1 by (simp add: turns.simps [of en b order w])
      qed (use Pair Some at c1 in \<open>simp_all add: turns.simps [of en b order w]\<close>)
    qed
  qed
qed

lemma round_body_combatants: "combatants (fst (snd (round_body en b w))) = combatants b"
  by (simp add: round_body_def Let_def case_prod_beta turns_combatants split: signal.splits)

lemma refusals_turns:
  assumes "list_all short_silences (heap w)" "list_all (\<lambda>x. x < length (heap w)) order"
  shows "refusals_by_silence (snd (snd (turns en b order w))) = refusals_by_silence w"
  using assms
proof (induction en b order w rule: turns.induct)
  case (1 en b order w)
  show ?case
  proof (cases "TurnOrder_next (heap w) order")
    case (Pair a rest)
    show ?thesis
    proof (cases a)
      case None
      with Pair show ?thesis by (simp add: turns.simps [of en b order w])
    next
      case (Some actor)
      obtain s1 b1 w1 where at: "actor_turn en b actor w = (s1, b1, w1)"
        by (cases "actor_turn en b actor w") auto
      have mem: "actor \<in> set order" "set rest \<subseteq> set order"
        using TurnOrder_next_set [of "heap w" order actor rest] Pair Some by simp_all
      have v: "actor < length (heap w)" "short_silences (heap w ! actor)"
        using mem(1) "1.prems" by (auto simp: list_all_iff)
      have r1: "refusals_by_silence w1 = refusals_by_silence w"
        using refusals_actor_turn [OF v(2) v(1), of en b] at by simp
      have k: "keeps short_silences w w1"
        using keeps_actor_turn [OF stable_short_silences keeps_refl, of w en b actor] at by simp
      then have inv1: "list_all short_silences (heap w1)"
        and len1: "length (heap w1) = length (heap w)"
        using "1.prems"(1) by (simp_all add: keeps_def)
      have val1: "list_all (\<lambda>x. x < length (heap w1)) rest"
        using mem(2) "1.prems"(2) len1 by (auto simp: list_all_iff)
      show ?thesis
      proof (cases s1)
        case Next
        from "1.IH" [OF Pair [symmetric] Some at [symmetric] Next refl inv1 val1]
        show ?thesis using Pair Some at Next r1 by (simp add: turns.simps [of en b order w])
      qed (use Pair Some at r1 in \<open>simp_all add: turns.simps [of en b order w]\<close>)
    qed
  qed
qed

lemma refusals_tick_cooldowns [simp]:
  "refusals_by_silence (tick_cooldowns cs w) = refusals_by_silence w"
  by (induction cs arbitrary: w) (simp_all add: refusals_on del: on_simps)

lemma stdout_shuffle_loop [simp]: "stdout (snd (shuffle_loop en i xs w)) = stdout w"
  by (induction i arbitrary: xs w) (simp_all add: randbelow_eq)

lemma prepare_round_facts:
  "heap (snd (prepare_round en combs w)) = heap w"
  "stdout (snd (prepare_round en combs w)) = stdout w"
  "set (fst (prepare_round en combs w)) \<subseteq> set combs"
proof -
  show "heap (snd (prepare_round en combs w)) = heap w"
    by (simp add: prepare_round_def Let_def case_prod_beta)
  show "stdout (snd (prepare_round en combs w)) = stdout w"
    by (simp add: prepare_round_def Let_def case_prod_beta random_shuffle_def)
  have "mset (fst (prepare_round en combs w)) = mset (living_of (heap w) combs)"
    by (simp add: prepare_round_def Let_def case_prod_beta mset_sort_desc random_shuffle_mset)
  then have "set (fst (prepare_round en combs w)) = set (living_of (heap w) combs)"
    by (rule mset_eq_setD)
  then show "set (fst (prepare_round en combs w)) \<subseteq> set combs"
    by (auto simp: living_of_def)
qed

lemma refusals_round_body:
  assumes "list_all short_silences (heap w)" "valid_refs b w"
  shows "refusals_by_silence (snd (snd (round_body en b w))) = refusals_by_silence w"
proof -
  let ?b1 = "record_msg (RoundBegin (round_no b)) b"
  let ?m = "RoundHeader (round_no ?b1) (phase (heap w ! boss ?b1))"
  let ?b2 = "fst (broadcast ?b1 ?m w)"
  let ?w1 = "snd (broadcast ?b1 ?m w)"
  let ?order = "fst (prepare_round en (combatants ?b2) ?w1)"
  let ?w2 = "snd (prepare_round en (combatants ?b2) ?w1)"
  have h2: "heap ?w2 = heap w" by (simp add: prepare_round_facts)
  have r2: "refusals_by_silence ?w2 = refusals_by_silence w"
    by (simp add: refusals_by_silence_def prepare_round_facts broadcast_def)
  have "set ?order \<subseteq> set (combatants b)"
    using prepare_round_facts(3) [of en "combatants ?b2" ?w1] by simp
  then have val: "list_all (\<lambda>x. x < length (heap ?w2)) ?order"
    unfolding h2 using assms(2) by (auto simp: valid_refs_def list_all_iff)
  have inv: "list_all short_silences (heap ?w2)" unfolding h2 using assms(1) .
  have "refusals_by_silence (snd (snd (turns en ?b2 ?order ?w2))) = refusals_by_silence w"
    using refusals_turns [OF inv val, of en ?b2] r2 by simp
  then show ?thesis
    by (simp add: round_body_def Let_def case_prod_beta split: signal.splits)
qed


lemma refusals_finish [simp]:
  "refusals_by_silence (snd (snd (finish b w))) = refusals_by_silence w"
  by (simp add: finish_def case_prod_beta)

lemma refusals_run_loop:
  assumes "list_all short_silences (heap w)" "valid_refs b w"
  shows "refusals_by_silence (snd (snd (run_loop en max_rounds b w))) = refusals_by_silence w"
  using assms
proof (induction en max_rounds b w rule: run_loop.induct)
  case (1 en max_rounds b w)
  show ?case
  proof (cases "round_no b \<le> max_rounds \<and> is_alive (heap w ! boss b)
      \<and> any_alive (heap w) (party b)")
    case False
    have "run_loop en max_rounds b w = finish b w"
      by (subst run_loop.simps, rule if_not_P, rule False)
    then show ?thesis by simp
  next
    case True
    have unfold: "run_loop en max_rounds b w =
        (case round_body en b w of
           (Return r, b1, w1) \<Rightarrow> (Inr r, b1, w1)
         | (Raise e, b1, w1) \<Rightarrow> (Inl e, b1, w1)
         | (Next, b1, w1) \<Rightarrow> run_loop en max_rounds (b1\<lparr>round_no := round_no b1 + 1\<rparr>) w1
         | (Break, b1, w1) \<Rightarrow> run_loop en max_rounds (b1\<lparr>round_no := round_no b1 + 1\<rparr>) w1)"
      by (subst run_loop.simps, rule if_P, rule True)
    obtain s1 b1 w1 where rb: "round_body en b w = (s1, b1, w1)"
      by (cases "round_body en b w") auto
    have r1: "refusals_by_silence w1 = refusals_by_silence w"
      using refusals_round_body [OF "1.prems", of en] rb by simp
    have k: "keeps short_silences w w1"
      using keeps_round_body [OF stable_short_silences keeps_refl, of w en b] rb by simp
    then have inv1: "list_all short_silences (heap w1)"
      and len1: "length (heap w1) = length (heap w)"
      using "1.prems"(1) by (simp_all add: keeps_def)
    have "combatants b1 = combatants b" using round_body_combatants [of en b w] rb by simp
    then have val1: "valid_refs (b1\<lparr>round_no := round_no b1 + 1\<rparr>) w1"
      using "1.prems"(2) len1 by (simp add: valid_refs_def)
    show ?thesis
    proof (cases s1)
      case Next
      from "1.IH"(1) [OF True rb [symmetric] Next refl inv1 val1]
      show ?thesis using rb Next r1 by (simp add: unfold)
    next
      case Break
      from "1.IH"(2) [OF True rb [symmetric] Break refl inv1 val1]
      show ?thesis using rb Break r1 by (simp add: unfold)
    qed (use rb r1 in \<open>simp_all add: unfold\<close>)
  qed
qed

lemma refusals_run:
  assumes "list_all short_silences (heap w)" "valid_refs b w"
  shows "refusals_by_silence (snd (snd (run en max_rounds b w))) = refusals_by_silence w"
proof -
  have "valid_refs (fst (broadcast b BattleStart w)) (snd (broadcast b BattleStart w))"
    using assms(2) by (simp add: valid_refs_def)
  moreover have "list_all short_silences (heap (snd (broadcast b BattleStart w)))"
    using assms(1) by simp
  ultimately show ?thesis
    using refusals_run_loop [of "snd (broadcast b BattleStart w)" "fst (broadcast b BattleStart w)"
        en max_rounds]
    by (simp add: run_def case_prod_beta del: broadcast_simps)
qed

text \<open>
  C9: a silence of duration 1, as \<open>cast_silence\<close> attaches it, silences its target until
  the target's start-of-turn effects, which remove it. In \<open>run\<close>, started on a heap where
  every silence has duration 1 (a heap without effects is one) and with combatants that
  are references into the heap, no skill call is ever refused because of silence: the
  output gains no such line, and every silence on the heap still has duration 1 at the
  end.
\<close>

theorem C9_short_silence_never_blocks:
  "(short_silences c \<longrightarrow>
      short_silences (fst (apply_effect c (SilenceEffect s 1))) \<and>
      is_silenced (fst (apply_effect c (SilenceEffect s 1))) \<and>
      \<not> is_silenced (fst (start_turn_effects (fst (apply_effect c (SilenceEffect s 1)))))) \<and>
   (valid_refs b w \<and> list_all short_silences (heap w) \<longrightarrow>
      refusals_by_silence (snd (snd (run en max_rounds b w))) = refusals_by_silence w \<and>
      list_all short_silences (heap (snd (snd (run en max_rounds b w)))))"
proof -
  have a: "short_silences c \<longrightarrow>
      short_silences (fst (apply_effect c (SilenceEffect s 1))) \<and>
      is_silenced (fst (apply_effect c (SilenceEffect s 1))) \<and>
      \<not> is_silenced (fst (start_turn_effects (fst (apply_effect c (SilenceEffect s 1)))))"
    using stableD(8) [OF stable_short_silences, of c s] start_turn_effects_unsilences
    by (simp add: is_silenced_def)
  have "keeps short_silences w (snd (snd (run en max_rounds b w)))"
    by (rule keeps_run [OF stable_short_silences])
  then have b: "valid_refs b w \<and> list_all short_silences (heap w) \<longrightarrow>
      refusals_by_silence (snd (snd (run en max_rounds b w))) = refusals_by_silence w \<and>
      list_all short_silences (heap (snd (snd (run en max_rounds b w))))"
    using refusals_run [of w b en max_rounds] by (simp add: keeps_def)
  from a b show ?thesis ..
qed

lemma silenced_world_ok:
  "valid_refs sample_battle silenced_world" "list_all short_silences (heap silenced_world)"
  "refusals_by_silence silenced_world = 0" "short_silences (Warrior_init ''w'')"
  by code_simp+

theorem C9_short_silence_witness:
  "valid_refs sample_battle silenced_world \<and> list_all short_silences (heap silenced_world) \<and>
   is_silenced (heap silenced_world ! 0) \<and>
   refusals_by_silence (snd (snd (run skill_env 50 sample_battle silenced_world))) = 0 \<and>
   short_silences (Warrior_init ''w'') \<and>
   \<not> is_silenced (fst (start_turn_effects (fst (apply_effect (Warrior_init ''w'') (SilenceEffect 3 1)))))"
  using C9_short_silence_never_blocks
    [where c = "Warrior_init ''w''" and s = 3 and b = sample_battle and w = silenced_world
       and en = skill_env and max_rounds = 50]
    silenced_world_ok silenced_world_heap(1)
  by simp


section \<open>The upper bounds of hp and mp\<close>











end
